theory Spec2Isabelle
  imports Complex_Main "HOL-Library.Sublist" "HOL-Library.Multiset"
begin

section \<open>Python strings\<close>

text \<open>
  A Python \<open>str\<close> is a sequence of Unicode code points. The model covers the code
  points below 256, one \<^typ>\<open>char\<close> each, with Python's own classification of them:
  \<open>str.isspace\<close> (which \<open>str.strip\<close>, \<open>str.split\<close> and the regex class \<open>\s\<close> all
  use), \<open>str.lower\<close> and the regex class \<open>\w\<close> (alphanumeric or underscore).
\<close>

definition whitespace_chars :: "char list" where
  "whitespace_chars =
     [CHR 0x09, CHR 0x0A, CHR 0x0B, CHR 0x0C, CHR 0x0D, CHR 0x1C, CHR 0x1D, CHR 0x1E,
      CHR 0x1F, CHR 0x20, CHR 0x85, CHR 0xA0]"

definition isspace :: "char \<Rightarrow> bool" where
  "isspace c = (c \<in> set whitespace_chars)"

definition ascii_upper :: "char \<Rightarrow> bool" where
  "ascii_upper c = (let n = (of_char c :: nat) in 65 \<le> n \<and> n \<le> 90)"

definition ascii_lower :: "char \<Rightarrow> bool" where
  "ascii_lower c = (let n = (of_char c :: nat) in 97 \<le> n \<and> n \<le> 122)"

definition ascii_digit :: "char \<Rightarrow> bool" where
  "ascii_digit c = (let n = (of_char c :: nat) in 48 \<le> n \<and> n \<le> 57)"

definition ascii_letter :: "char \<Rightarrow> bool" where
  "ascii_letter c = (ascii_lower c \<or> ascii_upper c)"

text \<open>\<open>\w\<close> on a \<open>str\<close> pattern: \<open>c.isalnum() or c == '_'\<close>.\<close>

definition latin1_alnum :: "char \<Rightarrow> bool" where
  "latin1_alnum c =
     (let n = (of_char c :: nat)
      in n = 0xAA \<or> n = 0xB2 \<or> n = 0xB3 \<or> n = 0xB5 \<or> n = 0xB9 \<or> n = 0xBA
         \<or> (0xBC \<le> n \<and> n \<le> 0xBE) \<or> (0xC0 \<le> n \<and> n \<le> 0xD6)
         \<or> (0xD8 \<le> n \<and> n \<le> 0xF6) \<or> 0xF8 \<le> n)"

definition word_char :: "char \<Rightarrow> bool" where
  "word_char c =
     (ascii_digit c \<or> ascii_letter c \<or> c = CHR ''_'' \<or> latin1_alnum c)"

text \<open>\<open>str.lower\<close>, one code point at a time.\<close>

definition char_lower :: "char \<Rightarrow> char" where
  "char_lower c =
     (let n = (of_char c :: nat)
      in if (65 \<le> n \<and> n \<le> 90) \<or> (0xC0 \<le> n \<and> n \<le> 0xDE \<and> n \<noteq> 0xD7)
         then char_of (n + 32) else c)"

definition lower :: "string \<Rightarrow> string" where
  "lower s = map char_lower s"

definition lstrip :: "string \<Rightarrow> string" where
  "lstrip s = dropWhile isspace s"

definition strip :: "string \<Rightarrow> string" where
  "strip s = rev (lstrip (rev (lstrip s)))"

text \<open>
  \<open>s.split()\<close>: the maximal runs of non-whitespace characters, in order; \<open>cur\<close> is the
  run being read.
\<close>

fun split_from :: "string \<Rightarrow> string \<Rightarrow> string list" where
  "split_from cur [] = (if cur = [] then [] else [cur])"
| "split_from cur (c # cs) =
     (if isspace c then (if cur = [] then split_from [] cs else cur # split_from [] cs)
      else split_from (cur @ [c]) cs)"

definition split :: "string \<Rightarrow> string list" where
  "split s = split_from [] s"

text \<open>\<open>' '.join(parts)\<close>\<close>

fun join_space :: "string list \<Rightarrow> string" where
  "join_space [] = []"
| "join_space [p] = p"
| "join_space (p # q # ps) = p @ CHR '' '' # join_space (q # ps)"

text \<open>\<open>sub in s\<close> on strings: \<open>sub\<close> occurs in \<open>s\<close> as a contiguous run.\<close>

fun py_in :: "string \<Rightarrow> string \<Rightarrow> bool" where
  "py_in sub [] = (sub = [])"
| "py_in sub (c # cs) = (prefix sub (c # cs) \<or> py_in sub cs)"

text \<open>
  \<open>re.sub(r'\s+', ' ', s)\<close>: every maximal whitespace run becomes one space; the flag
  says whether the previous character was whitespace.
\<close>

fun sub_ws_runs :: "bool \<Rightarrow> string \<Rightarrow> string" where
  "sub_ws_runs in_run [] = []"
| "sub_ws_runs in_run (c # cs) =
     (if isspace c then (if in_run then sub_ws_runs True cs else CHR '' '' # sub_ws_runs True cs)
      else c # sub_ws_runs False cs)"

definition collapse_ws :: "string \<Rightarrow> string" where
  "collapse_ws s = sub_ws_runs False s"

section \<open>WordMatcher._clean_word\<close>

text \<open>The characters that \<open>re.sub(r'[^\w\s\'-]', '', cleaned)\<close> keeps.\<close>

definition kept_char :: "char \<Rightarrow> bool" where
  "kept_char c = (word_char c \<or> isspace c \<or> c = CHR 0x27 \<or> c = CHR ''-'')"

definition clean_word :: "string \<Rightarrow> string" where
  "clean_word word =
     (let cleaned = join_space (split (lower (strip word)))
      in filter kept_char cleaned)"

section \<open>TextProcessor.validate_input\<close>

definition msg_empty_word :: string where
  "msg_empty_word = ''Please enter a valid English word''"

text \<open>
  \<open>re.match(r'^[a-zA-Z\s\'-]+$', s)\<close>. \<open>$\<close> also matches before a final newline, but a
  newline is itself in \<open>\s\<close>, so the match succeeds exactly when \<open>s\<close> is non-empty
  and every character is in the class.
\<close>

definition valid_char :: "char \<Rightarrow> bool" where
  "valid_char c = (ascii_letter c \<or> isspace c \<or> c = CHR 0x27 \<or> c = CHR ''-'')"

definition match_valid_chars :: "string \<Rightarrow> bool" where
  "match_valid_chars s = (s \<noteq> [] \<and> list_all valid_char s)"

definition validate_input :: "string \<Rightarrow> bool \<times> string" where
  "validate_input text =
     (if text = [] \<or> strip text = [] then (False, msg_empty_word)
      else if length (strip text) > 100 then (False, ''Word is too long (max 100 characters)'')
      else if \<not> match_valid_chars (strip text) then (False, ''Word contains invalid characters'')
      else (True, []))"

section \<open>The lookup table\<close>

text \<open>
  The pandas \<open>DataFrame\<close> that \<open>CSVLoader.load_translation_data\<close> delivers: its column
  labels and its rows in load order. Every row has a string in the \<open>english\<close> column
  (the loader drops the others) and the texts of its other cells, as pairs of column
  label and text in column order; a column without a pair is a missing cell (\<open>NaN\<close>).
  The columns of the table are text columns (dtype \<open>object\<close>), on which the \<open>.str\<close>
  accessor works and gives \<open>NaN\<close> for a missing cell. The loader replaces every missing
  cell of the \<open>english\<close> column and of the columns of the supported languages by the
  empty text, so the tables it delivers have no missing cell there.
\<close>

record row =
  english :: string
  cells :: "(string \<times> string) list"

definition cell :: "row \<Rightarrow> string \<Rightarrow> string option" where
  "cell r column = map_of (cells r) column"

record dataframe =
  columns :: "string list"
  rows :: "row list"

section \<open>Exceptions\<close>

text \<open>
  The exceptions the program meets: the plain \<open>Exception\<close> that \<open>translate_to_swahili\<close>
  raises, and the \<open>AttributeError\<close> that pandas raises when the \<open>.str\<close> accessor is
  used on a column that holds no text. \<open>exception_message\<close> is \<open>str(e)\<close>.
\<close>

datatype py_exception = Exception string | AttributeError string

fun exception_message :: "py_exception \<Rightarrow> string" where
  "exception_message (Exception msg) = msg"
| "exception_message (AttributeError msg) = msg"

definition msg_str_accessor :: string where
  "msg_str_accessor = ''Can only use .str accessor with string values!''"

section \<open>WordMatcher\<close>

text \<open>
  The row filter of \<open>_get_best_translation\<close>:
  \<open>matches[lang].notna() & (matches[lang].str.strip() != '')\<close>.
\<close>

definition valid_translation :: "string \<Rightarrow> row \<Rightarrow> bool" where
  "valid_translation target_language r =
     (case cell r target_language of None \<Rightarrow> False | Some s \<Rightarrow> strip s \<noteq> [])"

definition get_best_translation :: "row list \<Rightarrow> string \<Rightarrow> string option" where
  "get_best_translation matches target_language =
     (if matches = [] then None
      else case filter (valid_translation target_language) matches of
             [] \<Rightarrow> None
           | r # _ \<Rightarrow>
               (case cell r target_language of
                  None \<Rightarrow> None
                | Some s \<Rightarrow> (let translation = strip s
                             in if translation \<noteq> [] then Some translation else None)))"

definition exact_match :: "string \<Rightarrow> string \<Rightarrow> dataframe \<Rightarrow> string option" where
  "exact_match word target_language df =
     get_best_translation
       (filter (\<lambda>r. strip (lower (english r)) = word) (rows df)) target_language"

definition case_insensitive_match :: "string \<Rightarrow> string \<Rightarrow> dataframe \<Rightarrow> string option" where
  "case_insensitive_match word target_language df =
     get_best_translation
       (filter (\<lambda>r. collapse_ws (strip (lower (english r))) = word) (rows df)) target_language"

text \<open>
  \<open>DataFrame.drop_duplicates()\<close> keeps the first of the rows that agree in every column;
  \<open>seen\<close> holds the rows kept so far.
\<close>

fun drop_duplicates_from :: "'a list \<Rightarrow> 'a list \<Rightarrow> 'a list" where
  "drop_duplicates_from seen [] = []"
| "drop_duplicates_from seen (x # xs) =
     (if x \<in> set seen then drop_duplicates_from seen xs
      else x # drop_duplicates_from (x # seen) xs)"

definition drop_duplicates :: "'a list \<Rightarrow> 'a list" where
  "drop_duplicates xs = drop_duplicates_from [] xs"

text \<open>
  \<open>_partial_match\<close>. Both masks test \<open>word in x\<close> for the lower-cased entry \<open>x\<close>: the
  first through \<open>str.contains(word, regex=False)\<close>, the second through the lambda
  \<open>word in x if x else False\<close>.

  \<open>sort_values('english', key=...)\<close> orders the candidates by the length of the entry.
  It uses numpy's default sort, which is not stable: the order it gives to entries of
  one length is not determined by the program. The sort is therefore a parameter,
  \<open>sort_values\<close>; \<open>sorts_by_length\<close> says what pandas promises of it, that the result
  has the same rows and is ordered by length.
\<close>

type_synonym row_sort = "row list \<Rightarrow> row list"

definition sorts_by_length :: "row_sort \<Rightarrow> bool" where
  "sorts_by_length sort_values =
     (\<forall>rs. mset (sort_values rs) = mset rs
           \<and> sorted (map (\<lambda>r. length (english r)) (sort_values rs)))"

definition partial_match :: "row_sort \<Rightarrow> string \<Rightarrow> string \<Rightarrow> dataframe \<Rightarrow> string option" where
  "partial_match sort_values word target_language df =
     (let contains_matches = filter (\<lambda>r. py_in word (lower (english r))) (rows df);
          contained_matches =
            filter (\<lambda>r. let x = lower (english r) in if x \<noteq> [] then py_in word x else False)
              (rows df);
          all_matches = drop_duplicates (contains_matches @ contained_matches)
      in if all_matches \<noteq> []
         then get_best_translation (sort_values all_matches) target_language
         else None)"

text \<open>
  \<open>_fuzzy_match\<close>. The similarity \<open>len(intersection) / len(union)\<close> is a quotient of
  two naturals, modelled exactly as a rational: Python's \<open>/\<close> rounds it correctly to a
  double, and the two comparisons below come out the same on doubles as on rationals
  for all token sets of fewer than \<open>2 ^ 26\<close> elements.
\<close>

definition similarity :: "string set \<Rightarrow> string set \<Rightarrow> rat" where
  "similarity word_parts entry_parts =
     of_nat (card (word_parts \<inter> entry_parts)) / of_nat (card (word_parts \<union> entry_parts))"

text \<open>
  Inside the loop the row is made a frame of its own, \<open>pd.DataFrame([row])\<close>, whose
  column types pandas infers anew. A missing cell becomes a column of floats, and
  \<open>_get_best_translation\<close> evaluates \<open>.str\<close> on it whatever \<open>notna()\<close> gave: it raises
  \<open>AttributeError\<close>. With a text in the cell it works as on the whole table.
\<close>

definition get_best_translation_of_row :: "row \<Rightarrow> string \<Rightarrow> py_exception + string option" where
  "get_best_translation_of_row r target_language =
     (case cell r target_language of
        None \<Rightarrow> Inl (AttributeError msg_str_accessor)
      | Some _ \<Rightarrow> Inr (get_best_translation [r] target_language))"

fun fuzzy_loop ::
  "string set \<Rightarrow> string \<Rightarrow> row list \<Rightarrow> string option \<times> rat \<Rightarrow>
   py_exception + string option \<times> rat"
where
  "fuzzy_loop word_parts target_language [] best = Inr best"
| "fuzzy_loop word_parts target_language (r # rs) (best_match, best_score) =
     (let english_entry = strip (lower (english r))
      in if english_entry = [] then fuzzy_loop word_parts target_language rs (best_match, best_score)
         else
           let entry_parts = set (split english_entry)
           in if word_parts \<union> entry_parts \<noteq> {}
                 \<and> similarity word_parts entry_parts > best_score
                 \<and> similarity word_parts entry_parts \<ge> 1 / 2
              then (case get_best_translation_of_row r target_language of
                      Inl e \<Rightarrow> Inl e
                    | Inr (Some translation) \<Rightarrow>
                        fuzzy_loop word_parts target_language rs
                          (Some translation, similarity word_parts entry_parts)
                    | Inr None \<Rightarrow> fuzzy_loop word_parts target_language rs (best_match, best_score))
              else fuzzy_loop word_parts target_language rs (best_match, best_score))"

definition fuzzy_match :: "string \<Rightarrow> string \<Rightarrow> dataframe \<Rightarrow> py_exception + string option" where
  "fuzzy_match word target_language df =
     (case fuzzy_loop (set (split word)) target_language (rows df) (None, 0) of
        Inl e \<Rightarrow> Inl e
      | Inr (best_match, best_score) \<Rightarrow> Inr best_match)"

text \<open>\<open>if v:\<close> on an optional string: the string when it is there and non-empty.\<close>

definition truthy :: "string option \<Rightarrow> string option" where
  "truthy v = (case v of None \<Rightarrow> None | Some s \<Rightarrow> if s \<noteq> [] then Some s else None)"

text \<open>
  \<open>search_in_csv\<close> returns the translation and logs which method found it; the model
  returns the method of the log line with the translation.
\<close>

datatype tier = Exact | Case_Insensitive | Partial | Fuzzy

definition search_in_csv_tier ::
  "row_sort \<Rightarrow> string \<Rightarrow> string \<Rightarrow> dataframe \<Rightarrow> py_exception + (tier \<times> string) option"
where
  "search_in_csv_tier sort_values english_word target_language df =
     (if rows df = [] \<or> target_language \<notin> set (columns df) then Inr None
      else
        let english_clean = clean_word english_word
        in case truthy (exact_match english_clean target_language df) of
             Some m \<Rightarrow> Inr (Some (Exact, m))
           | None \<Rightarrow>
         (case truthy (case_insensitive_match english_clean target_language df) of
             Some m \<Rightarrow> Inr (Some (Case_Insensitive, m))
           | None \<Rightarrow>
         (case truthy (partial_match sort_values english_clean target_language df) of
             Some m \<Rightarrow> Inr (Some (Partial, m))
           | None \<Rightarrow>
         (case fuzzy_match english_clean target_language df of
             Inl e \<Rightarrow> Inl e
           | Inr fuzzy \<Rightarrow>
               (case truthy fuzzy of
                  Some m \<Rightarrow> Inr (Some (Fuzzy, m))
                | None \<Rightarrow> Inr None)))))"

definition search_in_csv ::
  "row_sort \<Rightarrow> string \<Rightarrow> string \<Rightarrow> dataframe \<Rightarrow> py_exception + string option"
where
  "search_in_csv sort_values english_word target_language df =
     (case search_in_csv_tier sort_values english_word target_language df of
        Inl e \<Rightarrow> Inl e
      | Inr found \<Rightarrow> Inr (map_option snd found))"

section \<open>Config\<close>

definition GOOGLE_TRANSLATE_MAX_RETRIES :: nat where
  "GOOGLE_TRANSLATE_MAX_RETRIES = 3"

definition SUPPORTED_LANGUAGES :: "(string \<times> string) list" where
  "SUPPORTED_LANGUAGES =
     [(''swahili'', ''Swahili''), (''haya'', ''Haya''), (''sukuma'', ''Sukuma'')]"

definition FALLBACK_TRANSLATIONS :: "(string \<times> (string \<times> string) list) list" where
  "FALLBACK_TRANSLATIONS =
     [(''swahili'',
        [(''hello'', ''hujambo''), (''goodbye'', ''kwaheri''), (''thank you'', ''asante''),
         (''please'', ''tafadhali''), (''yes'', ''ndiyo''), (''no'', ''hapana''),
         (''water'', ''maji''), (''food'', ''chakula''), (''house'', ''nyumba''),
         (''family'', ''familia''), (''friend'', ''rafiki''), (''love'', ''upendo''),
         (''peace'', ''amani''), (''school'', ''shule''), (''book'', ''kitabu''),
         (''teacher'', ''mwalimu''), (''student'', ''mwanafunzi''), (''mother'', ''mama''),
         (''father'', ''baba''), (''child'', ''mtoto''), (''good'', ''nzuri''),
         (''bad'', ''mbaya''), (''big'', ''kubwa''), (''small'', ''ndogo'')]),
      (''haya'',
        [(''hello'', ''oriire ota''), (''water'', ''amizi''), (''food'', ''ebyakula''),
         (''house'', ''enju''), (''thank you'', ''waakera''), (''good'', ''kirungi''),
         (''man'', ''mushaija''), (''woman'', ''mukazi''), (''child'', ''mwana''),
         (''book'', ''ekitabu''), (''school'', ''umosomelo''), (''sleep'', ''okunyama''),
         (''eat'', ''okulya''), (''walk'', ''iruka''), (''morning'', ''bwakya''),
         (''one'', ''emo''), (''two'', ''ibili''), (''three'', ''ishatu''),
         (''four'', ''ina''), (''five'', ''itanu'')]),
      (''sukuma'',
        [(''hello'', ''mwangaluka''), (''world'', ''welelo''), (''food'', ''shilewa''),
         (''water'', ''minze''), (''house'', ''numba''), (''school'', ''shule''),
         (''friend'', ''nsumba''), (''man'', ''ngosha''), (''woman'', ''nkima''),
         (''child'', ''mwana''), (''tomorrow'', ''ntondo''), (''home'', ''mukaya''),
         (''yes'', ''geko''), (''salt'', ''munhu''), (''shop'', ''iduka''),
         (''milk'', ''mabwhela''), (''talk'', ''goyomba''), (''one'', ''emo''),
         (''buy'', ''gula''), (''sell'', ''guzu'')])]"

definition msg_network_error :: string where
  "msg_network_error = ''Network timeout - please check your internet connection''"

definition msg_rate_limit :: string where
  "msg_rate_limit = ''Rate limit exceeded - please try again later''"

definition msg_translation_failed :: string where
  "msg_translation_failed = ''Translation failed after multiple attempts''"

definition get_fallback_translation :: "string \<Rightarrow> string \<Rightarrow> string option" where
  "get_fallback_translation word target_language =
     (let word_lower = strip (lower word)
      in case map_of FALLBACK_TRANSLATIONS target_language of
           Some table \<Rightarrow> map_of table word_lower
         | None \<Rightarrow> None)"

section \<open>TranslationService\<close>

text \<open>
  What one call of \<open>self.translator.translate\<close> does: it returns a result whose \<open>text\<close>
  is a string or is missing (\<open>None\<close>, also for a result that is itself \<open>None\<close>), or it
  raises an exception with a message. The remote service is a parameter: \<open>remote w n\<close>
  is the outcome of the call made for the text \<open>w\<close> when \<open>n\<close> calls have been made
  before. The service object holds the cache; \<open>remote_calls\<close> counts the calls made.
  Every exception the method raises is a plain \<open>Exception\<close> with a message. The pauses
  before a retry change no value and are left out.
\<close>

datatype remote_outcome = Returned "string option" | Raised string

record translation_service =
  translation_cache :: "string \<rightharpoonup> string"
  remote_calls :: nat

definition network_keyword :: "string \<Rightarrow> bool" where
  "network_keyword error_msg =
     list_ex (\<lambda>keyword. py_in keyword error_msg)
       [''timeout'', ''handshake'', ''ssl'', ''connection'']"

definition rate_limit_keyword :: "string \<Rightarrow> bool" where
  "rate_limit_keyword error_msg = (py_in ''rate limit'' error_msg \<or> py_in ''429'' error_msg)"

text \<open>
  The body of the \<open>try\<close>: the call, then either the stripped text or the exception
  that the \<open>except\<close> clause receives, as its message.
\<close>

definition try_translate :: "remote_outcome \<Rightarrow> string + string" where
  "try_translate outcome =
     (case outcome of
        Raised msg \<Rightarrow> Inl msg
      | Returned None \<Rightarrow> Inl ''Empty translation result''
      | Returned (Some text) \<Rightarrow>
          if text \<noteq> [] then Inr (strip text) else Inl ''Empty translation result'')"

text \<open>
  The loop \<open>for attempt in range(MAX_RETRIES)\<close>, from \<open>attempt\<close> on with \<open>left\<close>
  iterations to go.
\<close>

fun retry_loop ::
  "(string \<Rightarrow> nat \<Rightarrow> remote_outcome) \<Rightarrow> string \<Rightarrow> string \<Rightarrow> nat \<Rightarrow> nat \<Rightarrow>
   translation_service \<Rightarrow> (py_exception + string) \<times> translation_service"
where
  "retry_loop remote english_word cache_key attempt 0 svc =
     (Inl (Exception msg_translation_failed), svc)"
| "retry_loop remote english_word cache_key attempt (Suc left) svc =
     (let outcome = remote english_word (remote_calls svc);
          svc1 = svc\<lparr>remote_calls := Suc (remote_calls svc)\<rparr>
      in case try_translate outcome of
           Inr translation \<Rightarrow>
             (Inr translation,
              svc1\<lparr>translation_cache := (translation_cache svc1)(cache_key \<mapsto> translation)\<rparr>)
         | Inl e \<Rightarrow>
             (let error_msg = lower e
              in if network_keyword error_msg then
                   (if attempt = GOOGLE_TRANSLATE_MAX_RETRIES - 1
                    then (Inl (Exception msg_network_error), svc1)
                    else retry_loop remote english_word cache_key (Suc attempt) left svc1)
                 else if rate_limit_keyword error_msg then
                   (if attempt = GOOGLE_TRANSLATE_MAX_RETRIES - 1
                    then (Inl (Exception msg_rate_limit), svc1)
                    else retry_loop remote english_word cache_key (Suc attempt) left svc1)
                 else (Inl (Exception (''Translation service error: '' @ e)), svc1)))"

definition translate_to_swahili ::
  "(string \<Rightarrow> nat \<Rightarrow> remote_outcome) \<Rightarrow> translation_service \<Rightarrow> string \<Rightarrow>
   (py_exception + string) \<times> translation_service"
where
  "translate_to_swahili remote svc english_word =
     (let cache_key = ''en_to_sw_'' @ lower english_word
      in case translation_cache svc cache_key of
           Some cached \<Rightarrow> (Inr cached, svc)
         | None \<Rightarrow>
             retry_loop remote english_word cache_key 0 GOOGLE_TRANSLATE_MAX_RETRIES svc)"

section \<open>TextProcessor.format_translation_response\<close>

text \<open>
  The returned dictionary, as a record. \<open>str.title\<close>, used for the display name of a
  language that is not in \<open>SUPPORTED_LANGUAGES\<close>, is a parameter.
\<close>

record formatted_response =
  fr_english :: string
  fr_translation :: string
  fr_target_language :: string
  fr_method :: string
  fr_success :: bool
  fr_language_name :: string

definition format_translation_response ::
  "(string \<Rightarrow> string) \<Rightarrow> string \<Rightarrow> string \<Rightarrow> string \<Rightarrow> string \<Rightarrow> formatted_response"
where
  "format_translation_response title english_text translation target_language method =
     \<lparr>fr_english = strip english_text,
      fr_translation = (if translation \<noteq> [] then strip translation else []),
      fr_target_language = target_language,
      fr_method = method,
      fr_success = (translation \<noteq> [] \<and> strip translation \<noteq> []),
      fr_language_name =
        (case map_of SUPPORTED_LANGUAGES target_language of
           Some name \<Rightarrow> name
         | None \<Rightarrow> title target_language)\<rparr>"

section \<open>The \<open>/translate\<close> handler\<close>

text \<open>
  \<open>translate_word\<close> in \<open>main.py\<close>. The module's globals are the state: the request
  counter, the statistics and the translation service; the table is loaded once and
  only read. A response carries every field of \<open>TranslationResponse\<close> but the
  timestamp. The handler returns a response or raises an \<open>HTTPException\<close>: status 400
  for a word that \<open>validate_input\<close> rejects, status 500 for any other exception raised
  on the way, as the last \<open>except\<close> clause of the handler has it.
\<close>

record translation_stats =
  total_requests :: nat
  successful_translations :: nat
  failed_translations :: nat
  used_csv_lookup :: nat
  used_google_translate :: nat
  used_fallback_dictionary :: nat
  used_not_found :: nat

record app_state =
  request_count :: nat
  stats :: translation_stats
  service :: translation_service

record translation_request =
  req_english_word :: string
  req_target_language :: string

record translation_response =
  resp_english :: string
  resp_translation :: string
  resp_target_language :: string
  resp_language_name :: string
  resp_method :: string
  resp_success :: bool
  resp_error :: "string option"

datatype http_exception = HTTPException nat string

definition count_failed :: "app_state \<Rightarrow> app_state" where
  "count_failed app = app\<lparr>stats := (stats app)\<lparr>failed_translations := Suc (failed_translations (stats app))\<rparr>\<rparr>"

definition count_successful :: "app_state \<Rightarrow> app_state" where
  "count_successful app =
     app\<lparr>stats := (stats app)\<lparr>successful_translations := Suc (successful_translations (stats app))\<rparr>\<rparr>"

text \<open>
  Building a \<open>TranslationResponse\<close> looks the language up in \<open>SUPPORTED_LANGUAGES\<close>. For
  a language that is not there the lookup raises \<open>KeyError\<close>, which the handler's last
  \<open>except\<close> clause turns into status 500 (the detail shows the key in quotes); no
  request that passed the pattern check of \<open>TranslationRequest\<close> gets there.
\<close>

definition respond ::
  "app_state \<Rightarrow> string \<Rightarrow> string \<Rightarrow> string \<Rightarrow> string \<Rightarrow> bool \<Rightarrow> string option \<Rightarrow>
   (http_exception + translation_response) \<times> app_state"
where
  "respond app english_text translation target_language method success err =
     (case map_of SUPPORTED_LANGUAGES target_language of
        None \<Rightarrow>
          (Inl (HTTPException 500
                  (''Translation failed: '' @ [CHR 0x27] @ target_language @ [CHR 0x27])),
           count_failed app)
      | Some name \<Rightarrow>
          (Inr \<lparr>resp_english = english_text, resp_translation = translation,
                resp_target_language = target_language, resp_language_name = name,
                resp_method = method, resp_success = success, resp_error = err\<rparr>,
           app))"

definition count_csv_lookup :: "app_state \<Rightarrow> app_state" where
  "count_csv_lookup app = app\<lparr>stats := (stats app)\<lparr>used_csv_lookup := Suc (used_csv_lookup (stats app))\<rparr>\<rparr>"

definition count_fallback_dictionary :: "app_state \<Rightarrow> app_state" where
  "count_fallback_dictionary app =
     app\<lparr>stats := (stats app)\<lparr>used_fallback_dictionary := Suc (used_fallback_dictionary (stats app))\<rparr>\<rparr>"

definition count_google_translate :: "app_state \<Rightarrow> app_state" where
  "count_google_translate app =
     app\<lparr>stats := (stats app)\<lparr>used_google_translate := Suc (used_google_translate (stats app))\<rparr>\<rparr>"

definition count_not_found :: "app_state \<Rightarrow> app_state" where
  "count_not_found app = app\<lparr>stats := (stats app)\<lparr>used_not_found := Suc (used_not_found (stats app))\<rparr>\<rparr>"

definition translate_word ::
  "(string \<Rightarrow> nat \<Rightarrow> remote_outcome) \<Rightarrow> row_sort \<Rightarrow> dataframe \<Rightarrow> app_state \<Rightarrow>
   translation_request \<Rightarrow> (http_exception + translation_response) \<times> app_state"
where
  "translate_word remote sort_values translation_df app0 request =
     (let app = app0\<lparr>request_count := Suc (request_count app0),
                     stats := (stats app0)\<lparr>total_requests := Suc (total_requests (stats app0))\<rparr>\<rparr>;
          (is_valid, error_message) = validate_input (req_english_word request)
      in if \<not> is_valid then (Inl (HTTPException 400 error_message), count_failed app)
         else
           let english_text = strip (req_english_word request);
               target_language = lower (req_target_language request)
           in case search_in_csv sort_values english_text target_language translation_df of
                Inl e \<Rightarrow>
                  (Inl (HTTPException 500 (''Translation failed: '' @ exception_message e)),
                   count_failed app)
              | Inr found \<Rightarrow>
             (case truthy found of
                Some csv_translation \<Rightarrow>
                  respond (count_csv_lookup (count_successful app))
                    english_text csv_translation target_language ''csv_lookup'' True None
              | None \<Rightarrow>
             (case truthy (get_fallback_translation english_text target_language) of
                Some fallback_translation \<Rightarrow>
                  respond (count_fallback_dictionary (count_successful app))
                    english_text fallback_translation target_language
                    ''fallback_dictionary'' True None
              | None \<Rightarrow>
                  if target_language = ''swahili'' then
                    (case translate_to_swahili remote (service app) english_text of
                       (Inr swahili_translation, svc) \<Rightarrow>
                         respond (count_google_translate (count_successful (app\<lparr>service := svc\<rparr>)))
                           english_text swahili_translation target_language
                           ''google_translate'' True None
                     | (Inl e, svc) \<Rightarrow>
                         respond (count_not_found (count_failed (app\<lparr>service := svc\<rparr>)))
                           english_text [] target_language ''failed'' False
                           (Some (exception_message e)))
                  else
                    respond (count_not_found (count_failed app))
                      english_text [] target_language ''not_found'' False
                      (Some (''No '' @ target_language @ '' translation found for ''
                             @ [CHR 0x27] @ english_text @ [CHR 0x27])))))"

section \<open>Sample services\<close>

text \<open>
  A service that has made no call and cached nothing, and remote services: one whose
  every call times out, one that returns an empty text, one that answers, one that
  times out once and then answers, and one that returns a single space.
\<close>

definition fresh_service :: translation_service where
  "fresh_service = \<lparr>translation_cache = Map.empty, remote_calls = 0\<rparr>"

definition remote_always_timeout :: "string \<Rightarrow> nat \<Rightarrow> remote_outcome" where
  "remote_always_timeout w n = Raised ''Read Timeout''"

definition remote_empty_text :: "string \<Rightarrow> nat \<Rightarrow> remote_outcome" where
  "remote_empty_text w n = Returned (Some [])"

definition remote_paka :: "string \<Rightarrow> nat \<Rightarrow> remote_outcome" where
  "remote_paka w n = Returned (Some '' paka '')"



definition remote_blank :: "string \<Rightarrow> nat \<Rightarrow> remote_outcome" where
  "remote_blank w n = Returned (Some '' '')"

section \<open>Sample tables and requests\<close>

text \<open>
  One sort that \<open>sort_values\<close> may be (the stable one), tables with the columns
  \<open>english\<close> and \<open>swahili\<close>, and the state of a freshly started application.
\<close>

definition stable_sort_by_length :: row_sort where
  "stable_sort_by_length rs = sort_key (\<lambda>r. length (english r)) rs"

definition sw_row :: "string \<Rightarrow> string \<Rightarrow> row" where
  "sw_row source_word translation = \<lparr>english = source_word, cells = [(''swahili'', translation)]\<rparr>"

definition sw_table :: "row list \<Rightarrow> dataframe" where
  "sw_table rs = \<lparr>columns = [''english'', ''swahili''], rows = rs\<rparr>"

definition fresh_app :: app_state where
  "fresh_app =
     \<lparr>request_count = 0,
      stats = \<lparr>total_requests = 0, successful_translations = 0, failed_translations = 0,
               used_csv_lookup = 0, used_google_translate = 0, used_fallback_dictionary = 0,
               used_not_found = 0\<rparr>,
      service = fresh_service\<rparr>"

definition cat_table :: dataframe where
  "cat_table = sw_table [sw_row ''cat'' '' paka '']"

definition stop_table :: dataframe where
  "stop_table = sw_table [sw_row ''Stop!'' ''simama'', sw_row ''stop'' ''acha'']"

definition book_table :: dataframe where
  "book_table = sw_table [sw_row ''book'' ''kitabu'']"

definition notebook_table :: dataframe where
  "notebook_table = sw_table [sw_row ''notebook'' ''daftari'', sw_row ''my book'' ''kitabu changu'']"

definition gap_table :: dataframe where
  "gap_table =
     \<lparr>columns = [''english'', ''swahili''],
      rows = [\<lparr>english = ''morning good'', cells = []\<rparr>, sw_row ''friend good'' ''rafiki mwema'']\<rparr>"

definition fuzzy_table :: dataframe where
  "fuzzy_table =
     sw_table [sw_row ''good day'' ''siku njema'', sw_row ''Morning good'' ''asubuhi njema'',
               sw_row ''friend good'' ''rafiki mwema'']"

definition greeting_table :: dataframe where
  "greeting_table = sw_table [sw_row ''hello'' ''hujambo'', sw_row ''world'' ''dunia'']"

section \<open>The exact tier in the words of the specification\<close>

text \<open>
  The specification selects the rows whose source word, normalized like the query,
  equals the normalized query. This definition follows the specification, for
  comparison with \<open>exact_match\<close>, which follows the code.
\<close>

definition spec_exact_match :: "string \<Rightarrow> string \<Rightarrow> dataframe \<Rightarrow> string option" where
  "spec_exact_match word target_language df =
     get_best_translation
       (filter (\<lambda>r. clean_word (english r) = clean_word word) (rows df)) target_language"

section \<open>The fuzzy tier in the words of the specification\<close>

text \<open>
  The specification of the fuzzy tier, for comparison with \<open>fuzzy_match\<close>, which follows
  the loop of the code. The score of a row is the Jaccard similarity of the token sets
  of the query and of the row's lower-cased, stripped source word, 0 when both are
  empty. The candidates are the rows that score at least one half and have a non-blank
  translation. The result is the stripped translation of the earliest candidate that
  no candidate outscores.
\<close>

definition spec_jaccard :: "string \<Rightarrow> string \<Rightarrow> rat" where
  "spec_jaccard query entry =
     (let a = set (split query); b = set (split entry)
      in if a \<union> b = {} then 0 else of_nat (card (a \<inter> b)) / of_nat (card (a \<union> b)))"

definition spec_score :: "string \<Rightarrow> row \<Rightarrow> rat" where
  "spec_score query r = spec_jaccard query (strip (lower (english r)))"

definition spec_fuzzy_candidates :: "string \<Rightarrow> string \<Rightarrow> row list \<Rightarrow> row list" where
  "spec_fuzzy_candidates query target_language rs =
     filter (\<lambda>r. spec_score query r \<ge> 1 / 2 \<and> valid_translation target_language r) rs"

definition spec_fuzzy_match :: "string \<Rightarrow> string \<Rightarrow> row list \<Rightarrow> string option" where
  "spec_fuzzy_match query target_language rs =
     (let cs = spec_fuzzy_candidates query target_language rs
      in case find (\<lambda>r. \<forall>r' \<in> set cs. spec_score query r' \<le> spec_score query r) cs of
           None \<Rightarrow> None
         | Some r \<Rightarrow> map_option strip (cell r target_language))"

section \<open>Facts about the string operations\<close>

lemmas char_defs = isspace_def whitespace_chars_def ascii_upper_def ascii_lower_def
  ascii_digit_def ascii_letter_def latin1_alnum_def word_char_def char_lower_def kept_char_def
  valid_char_def Let_def

lemma strip_Nil: "strip [] = []"
  by (simp add: strip_def lstrip_def)

lemma set_strip_subset: "set (strip s) \<subseteq> set s"
proof -
  have "set (strip s) \<subseteq> set (lstrip s)"
    unfolding strip_def lstrip_def using set_dropWhileD by fastforce
  also have "\<dots> \<subseteq> set s"
    unfolding lstrip_def using set_dropWhileD by fastforce
  finally show ?thesis .
qed

lemma nonspace_in_dropWhile: "c \<in> set s \<Longrightarrow> \<not> isspace c \<Longrightarrow> c \<in> set (dropWhile isspace s)"
  by (induction s) auto

lemma nonspace_in_strip: "c \<in> set s \<Longrightarrow> \<not> isspace c \<Longrightarrow> c \<in> set (strip s)"
  unfolding strip_def lstrip_def
  by (simp add: nonspace_in_dropWhile)

lemma digit_not_space: "ascii_digit c \<Longrightarrow> \<not> isspace c"
  by (auto simp: char_defs)

lemma digit_not_valid: "ascii_digit c \<Longrightarrow> \<not> valid_char c"
  by (auto simp: char_defs)

lemma digit_word_char: "ascii_digit c \<Longrightarrow> word_char c"
  by (auto simp: char_defs)

lemma digit_lower: "ascii_digit c \<Longrightarrow> char_lower c = c"
  by (auto simp: char_defs)

lemma validate_input_fst:
  "fst (validate_input text) \<longleftrightarrow>
     strip text \<noteq> [] \<and> length (strip text) \<le> 100 \<and> list_all valid_char (strip text)"
  by (auto simp: validate_input_def match_valid_chars_def strip_Nil)


lemma lstrip_fixed: "s = [] \<or> \<not> isspace (hd s) \<Longrightarrow> lstrip s = s"
  by (cases s) (auto simp: lstrip_def)

lemma lstrip_head: "lstrip s = [] \<or> \<not> isspace (hd (lstrip s))"
  unfolding lstrip_def by (metis hd_dropWhile)

lemma rstrip_keeps_head:
  assumes "s \<noteq> []" "\<not> isspace (hd s)"
  shows "rev (lstrip (rev s)) \<noteq> [] \<and> hd (rev (lstrip (rev s))) = hd s"
proof -
  obtain c cs where s: "s = c # cs" using assms(1) by (cases s) auto
  have "lstrip (rev s) = rev cs @ [c] \<or> (\<exists>ys. lstrip (rev s) = ys @ [c])"
    using assms(2) unfolding s lstrip_def
    by (simp add: dropWhile_append3)
  then obtain ys where "lstrip (rev s) = ys @ [c]" by blast
  then show ?thesis by (simp add: s)
qed

lemma strip_strip: "strip (strip s) = strip s"
proof (cases "lstrip s = []")
  case True
  have l0: "lstrip [] = []" by (simp add: lstrip_def)
  have "strip s = []" unfolding strip_def True by (simp add: l0)
  then show ?thesis by (simp add: strip_Nil)
next
  case False
  let ?a = "lstrip s"
  let ?b = "rev (lstrip (rev ?a))"
  have ha: "\<not> isspace (hd ?a)" using lstrip_head[of s] False by blast
  have hb: "?b \<noteq> [] \<and> hd ?b = hd ?a" using rstrip_keeps_head[OF False ha] .
  have 1: "lstrip ?b = ?b" using hb ha by (intro lstrip_fixed) simp
  have 2: "lstrip (rev ?b) = rev ?b"
    by (simp add: lstrip_def)
  show ?thesis unfolding strip_def 1 2 by simp
qed

lemma concat_split_from:
  "set (concat (split_from cur s)) = set cur \<union> {x \<in> set s. \<not> isspace x}"
  by (induction s arbitrary: cur) auto

lemma set_join_space: "set (concat ps) \<subseteq> set (join_space ps)"
  by (induction ps rule: join_space.induct) auto

lemma nonspace_in_join_split:
  assumes "x \<in> set s" "\<not> isspace x"
  shows "x \<in> set (join_space (split s))"
proof -
  have "x \<in> set (concat (split s))"
    unfolding split_def concat_split_from using assms by simp
  then show ?thesis using set_join_space by blast
qed

lemma digit_in_clean_word:
  assumes "c \<in> set w" "ascii_digit c"
  shows "c \<in> set (clean_word w)"
proof -
  have "c \<in> set (strip w)"
    using assms by (simp add: nonspace_in_strip digit_not_space)
  then have "char_lower c \<in> set (lower (strip w))"
    unfolding lower_def by simp
  then have "c \<in> set (lower (strip w))"
    using assms(2) by (simp add: digit_lower)
  then have "c \<in> set (join_space (split (lower (strip w))))"
    using assms(2) by (simp add: nonspace_in_join_split digit_not_space)
  moreover have "kept_char c"
    using assms(2) by (simp add: kept_char_def digit_word_char)
  ultimately show ?thesis by (simp add: clean_word_def)
qed

section \<open>The normalizer\<close>

text \<open>
  C6 as stated fails. \<open>_clean_word\<close> strips and collapses whitespace before it removes
  punctuation, so a space next to a removed character stays: the input \<open>a !\<close> is
  cleaned to \<open>a\<close> followed by a space, and cleaning that again gives \<open>a\<close>.
\<close>

theorem clean_word_not_idempotent:
  "clean_word ''a !'' = ''a '' \<and> clean_word (clean_word ''a !'') = ''a''
   \<and> clean_word (clean_word ''a !'') \<noteq> clean_word ''a !''"
  by code_simp

lemma char_lower_idem: "char_lower (char_lower c) = char_lower c"
  by (auto simp: char_lower_def Let_def)

lemma space_is_space: "isspace (CHR '' '')"
  by (simp add: isspace_def whitespace_chars_def)

lemma char_lower_space: "isspace c \<Longrightarrow> char_lower c = c"
  by (auto simp: char_defs)

lemma valid_char_lower_kept: "valid_char c \<Longrightarrow> kept_char (char_lower c)"
  by (auto simp: char_defs)


lemma split_from_tokens:
  assumes "\<forall>c \<in> set cur. \<not> isspace c"
  shows "\<forall>t \<in> set (split_from cur s). t \<noteq> [] \<and> (\<forall>c \<in> set t. \<not> isspace c)"
  using assms
proof (induction s arbitrary: cur)
  case Nil
  then show ?case by auto
next
  case (Cons a s)
  show ?case
  proof (cases "isspace a")
    case True
    have "\<forall>t \<in> set (split_from [] s). t \<noteq> [] \<and> (\<forall>c \<in> set t. \<not> isspace c)"
      by (rule Cons.IH) simp
    then show ?thesis using True Cons.prems by auto
  next
    case False
    have "\<forall>t \<in> set (split_from (cur @ [a]) s). t \<noteq> [] \<and> (\<forall>c \<in> set t. \<not> isspace c)"
      using False Cons.prems by (intro Cons.IH) auto
    then show ?thesis using False by simp
  qed
qed

lemma split_tokens: "\<forall>t \<in> set (split s). t \<noteq> [] \<and> (\<forall>c \<in> set t. \<not> isspace c)"
  unfolding split_def by (rule split_from_tokens) simp

lemma split_from_token:
  assumes "\<forall>c \<in> set t. \<not> isspace c"
  shows "split_from cur (t @ s) = split_from (cur @ t) s"
  using assms by (induction t arbitrary: cur) auto

lemma split_join_space:
  assumes "\<forall>t \<in> set ts. t \<noteq> [] \<and> (\<forall>c \<in> set t. \<not> isspace c)"
  shows "split (join_space ts) = ts"
  using assms
proof (induction ts rule: join_space.induct)
  case 1
  then show ?case by (simp add: split_def)
next
  case (2 p)
  then have "split_from [] (p @ []) = split_from ([] @ p) []"
    by (intro split_from_token) simp
  then show ?case using 2 by (simp add: split_def)
next
  case (3 p q ps)
  have p: "p \<noteq> []" "\<forall>c \<in> set p. \<not> isspace c" using 3(2) by auto
  have "split_from [] (p @ CHR '' '' # join_space (q # ps))
        = split_from ([] @ p) (CHR '' '' # join_space (q # ps))"
    using p(2) by (rule split_from_token)
  also have "\<dots> = p # split_from [] (join_space (q # ps))"
    using p(1) by (simp add: space_is_space)
  also have "\<dots> = p # q # ps"
    using 3 by (simp add: split_def)
  finally show ?case by (simp add: split_def)
qed

lemma split_from_spaces:
  assumes "\<forall>c \<in> set b. isspace c"
  shows "split_from cur b = split_from cur []"
  using assms
proof (induction b arbitrary: cur)
  case Nil
  then show ?case by simp
next
  case (Cons c b)
  then have "split_from [] b = split_from [] []" by simp
  then show ?case using Cons.prems by simp
qed

lemma split_from_trailing_spaces:
  assumes "\<forall>c \<in> set b. isspace c"
  shows "split_from cur (a @ b) = split_from cur a"
proof (induction a arbitrary: cur)
  case Nil
  show ?case using split_from_spaces[OF assms] by simp
next
  case (Cons c a)
  then show ?case by simp
qed

lemma split_lstrip: "split (lstrip s) = split s"
  unfolding split_def lstrip_def by (induction s) auto

lemma split_rstrip: "split (rev (lstrip (rev s))) = split s"
proof -
  let ?a = "rev (dropWhile isspace (rev s))"
  let ?b = "rev (takeWhile isspace (rev s))"
  have "?a @ ?b = rev (takeWhile isspace (rev s) @ dropWhile isspace (rev s))"
    by (simp only: rev_append)
  also have "\<dots> = rev (rev s)" by (simp only: takeWhile_dropWhile_id)
  finally have s: "s = ?a @ ?b" by simp
  have b: "\<forall>c \<in> set ?b. isspace c" using set_takeWhileD by fastforce
  have "split_from [] (?a @ ?b) = split_from [] ?a"
    using b by (rule split_from_trailing_spaces)
  then show ?thesis unfolding split_def lstrip_def using s by simp
qed

lemma split_strip: "split (strip s) = split s"
  unfolding strip_def by (simp add: split_rstrip split_lstrip)

lemma set_join_space_subset: "set (join_space ts) \<subseteq> set (concat ts) \<union> {CHR '' ''}"
  by (induction ts rule: join_space.induct) auto

lemma set_join_split: "set (join_space (split s)) \<subseteq> set s \<union> {CHR '' ''}"
proof -
  have "set (concat (split s)) \<subseteq> set s"
    unfolding split_def concat_split_from by auto
  then show ?thesis using set_join_space_subset[of "split s"] by blast
qed

lemma lower_fixed:
  assumes "\<forall>c \<in> set s. char_lower c = c"
  shows "lower s = s"
  using assms unfolding lower_def by (induction s) auto

lemma clean_word_of_kept:
  assumes "\<forall>c \<in> set (lower (strip w)). kept_char c"
  shows "clean_word w = join_space (split (lower (strip w)))"
proof -
  have "kept_char (CHR '' '')" by (simp add: kept_char_def space_is_space)
  then have "\<forall>c \<in> set (join_space (split (lower (strip w)))). kept_char c"
    using assms set_join_split[of "lower (strip w)"] by auto
  then show ?thesis by (simp add: clean_word_def)
qed

lemma clean_word_idempotent_of_kept:
  assumes "\<forall>c \<in> set (lower (strip w)). kept_char c"
  shows "clean_word (clean_word w) = clean_word w"
proof -
  let ?u = "lower (strip w)"
  let ?v = "join_space (split ?u)"
  have v: "clean_word w = ?v" using assms by (rule clean_word_of_kept)
  have chars: "set ?v \<subseteq> set ?u \<union> {CHR '' ''}" by (rule set_join_split)
  have low: "\<forall>c \<in> set ?v. char_lower c = c"
  proof
    fix c assume "c \<in> set ?v"
    then have "c \<in> set ?u \<or> c = CHR '' ''" using chars by auto
    then show "char_lower c = c"
    proof
      assume "c \<in> set ?u"
      then obtain d where "c = char_lower d" unfolding lower_def by auto
      then show ?thesis by (simp add: char_lower_idem)
    next
      assume "c = CHR '' ''"
      then show ?thesis by (simp add: char_lower_space space_is_space)
    qed
  qed
  have kept: "\<forall>c \<in> set ?v. kept_char c"
    using assms chars by (auto simp: kept_char_def space_is_space)
  have ls: "lower (strip ?v) = strip ?v"
    using low set_strip_subset[of ?v] by (intro lower_fixed) auto
  have sp: "split (strip ?v) = split ?u"
    using split_join_space[OF split_tokens, of ?u] by (simp add: split_strip)
  have "\<forall>c \<in> set (lower (strip ?v)). kept_char c"
    unfolding ls using kept set_strip_subset[of ?v] by auto
  then have "clean_word ?v = join_space (split (lower (strip ?v)))"
    by (rule clean_word_of_kept)
  then have "clean_word ?v = ?v" unfolding ls sp .
  then show ?thesis unfolding v .
qed

lemma validated_chars_kept:
  assumes "fst (validate_input w)"
  shows "\<forall>c \<in> set (lower (strip w)). kept_char c"
proof -
  have "list_all valid_char (strip w)" using assms by (simp add: validate_input_fst)
  then have "\<forall>c \<in> set (strip w). kept_char (char_lower c)"
    using valid_char_lower_kept by (auto simp: list_all_iff)
  then show ?thesis unfolding lower_def by auto
qed

text \<open>
  C6, amended. \<open>_clean_word\<close> is idempotent on every input from which its character
  filter removes nothing, that is, whose stripped and lower-cased form has only letters,
  digits, underscores, whitespace, hyphens and apostrophes. Every input that
  \<open>validate_input\<close> accepts is such an input, and so is its stripped form, which is
  what the handler passes to the matcher; the handler passes no other input.
\<close>

theorem clean_word_idempotent_on_kept_input:
  "((\<forall>c \<in> set (lower (strip w)). kept_char c) \<longrightarrow> clean_word (clean_word w) = clean_word w)
   \<and> (fst (validate_input w) \<longrightarrow> clean_word (clean_word w) = clean_word w)
   \<and> (fst (validate_input w)
        \<longrightarrow> clean_word (clean_word (strip w)) = clean_word (strip w))"
proof -
  have kept: "\<forall>c \<in> set (lower (strip (strip w))). kept_char c" if "fst (validate_input w)"
    using validated_chars_kept[OF that] by (simp only: strip_strip)
  show ?thesis
    using clean_word_idempotent_of_kept[of w] clean_word_idempotent_of_kept[of "strip w"]
      validated_chars_kept[of w] kept
    by blast
qed

theorem clean_word_idempotent_on_kept_input_witness:
  "clean_word ''  Hello   World '' = ''hello world''
   \<and> clean_word (clean_word ''  Hello   World '') = clean_word ''  Hello   World ''
   \<and> fst (validate_input ''Thank  You'')
   \<and> clean_word (clean_word ''Thank  You'') = clean_word ''Thank  You''
   \<and> clean_word (clean_word (strip ''Thank  You'')) = clean_word (strip ''Thank  You'')"
proof -
  have h1: "\<forall>c \<in> set (lower (strip ''  Hello   World '')). kept_char c" by code_simp
  have h2: "fst (validate_input ''Thank  You'')" by code_simp
  have v: "clean_word ''  Hello   World '' = ''hello world''" by code_simp
  show ?thesis
    using clean_word_idempotent_on_kept_input[of "''  Hello   World ''"]
      clean_word_idempotent_on_kept_input[of "''Thank  You''"] h1 h2 v
    by blast
qed


section \<open>Input validation\<close>

text \<open>
  C10. \<open>validate_input\<close> accepts a text exactly when its stripped form is non-empty, has
  at most 100 characters and consists of ASCII letters, whitespace, hyphens and
  apostrophes. A text with a digit is rejected, and the handler then answers with status
  400 without touching the translation service, although \<open>_clean_word\<close> keeps every digit
  of its input.
\<close>

theorem validate_input_accepts_iff:
  "(fst (validate_input text) \<longleftrightarrow>
      strip text \<noteq> [] \<and> length (strip text) \<le> 100
      \<and> (\<forall>c \<in> set (strip text). ascii_letter c \<or> isspace c \<or> c = CHR ''-'' \<or> c = CHR 0x27))
   \<and> ((\<exists>c \<in> set text. ascii_digit c) \<longrightarrow> \<not> fst (validate_input text))
   \<and> ((\<exists>c \<in> set (req_english_word request). ascii_digit c) \<longrightarrow>
        (\<exists>detail. fst (translate_word remote sort_values translation_df app request)
                     = Inl (HTTPException 400 detail))
        \<and> service (snd (translate_word remote sort_values translation_df app request)) = service app)
   \<and> (\<forall>c \<in> set text. ascii_digit c \<longrightarrow> c \<in> set (clean_word text))"
proof -
  have acc: "fst (validate_input t) \<longleftrightarrow>
      strip t \<noteq> [] \<and> length (strip t) \<le> 100
      \<and> (\<forall>c \<in> set (strip t). ascii_letter c \<or> isspace c \<or> c = CHR ''-'' \<or> c = CHR 0x27)" for t
    unfolding validate_input_fst list_all_iff valid_char_def by auto
  have digit: "\<not> fst (validate_input t)" if "\<exists>c \<in> set t. ascii_digit c" for t
  proof -
    from that obtain c where c: "c \<in> set t" "ascii_digit c" by blast
    then have "c \<in> set (strip t)" by (simp add: nonspace_in_strip digit_not_space)
    moreover have "\<not> valid_char c" using c(2) by (rule digit_not_valid)
    ultimately show ?thesis unfolding validate_input_fst list_all_iff by blast
  qed
  have handler: "(\<exists>detail. fst (translate_word remote sort_values translation_df app request)
                     = Inl (HTTPException 400 detail))
        \<and> service (snd (translate_word remote sort_values translation_df app request)) = service app"
    if "\<exists>c \<in> set (req_english_word request). ascii_digit c"
  proof -
    have "\<not> fst (validate_input (req_english_word request))" using digit[OF that] .
    then obtain msg where "validate_input (req_english_word request) = (False, msg)"
      by (cases "validate_input (req_english_word request)") auto
    then show ?thesis
      by (simp add: translate_word_def count_failed_def)
  qed
  have keep: "c \<in> set (clean_word text)" if "c \<in> set text" "ascii_digit c" for c
    using that by (rule digit_in_clean_word)
  show ?thesis using acc[of "text"] digit[of "text"] handler keep by blast
qed

theorem validate_input_accepts_iff_witness:
  "fst (validate_input ''  thank you '') \<and> \<not> fst (validate_input ''route 66'')
   \<and> CHR ''6'' \<in> set (clean_word ''route 66'')"
proof -
  have a: "strip ''  thank you '' \<noteq> [] \<and> length (strip ''  thank you '') \<le> 100
      \<and> (\<forall>c \<in> set (strip ''  thank you ''). ascii_letter c \<or> isspace c \<or> c = CHR ''-'' \<or> c = CHR 0x27)"
    by code_simp
  have b: "\<exists>c \<in> set ''route 66''. ascii_digit c" by code_simp
  have c: "CHR ''6'' \<in> set ''route 66'' \<and> ascii_digit CHR ''6''" by code_simp
  show ?thesis
    using validate_input_accepts_iff[of "''  thank you ''"] validate_input_accepts_iff[of "''route 66''"] a b c
    by blast
qed


section \<open>The remote translation with retries and cache\<close>

lemma empty_result_not_keyword:
  "\<not> network_keyword (lower ''Empty translation result'')"
  "\<not> rate_limit_keyword (lower ''Empty translation result'')"
  by code_simp+

lemma retry_loop_cache_on_failure:
  "retry_loop remote w k a n svc = (Inl e, svc') \<Longrightarrow> translation_cache svc' = translation_cache svc"
proof (induction n arbitrary: a svc)
  case 0
  then show ?case by simp
next
  case (Suc n)
  then show ?case
    by (auto simp: Let_def split: sum.splits if_splits)
qed



lemma retry_loop_network_step:
  assumes "remote w (remote_calls svc) = Raised msg" "network_keyword (lower msg)"
  shows "retry_loop remote w k a (Suc n) svc =
           (if a = GOOGLE_TRANSLATE_MAX_RETRIES - 1
            then (Inl (Exception msg_network_error), svc\<lparr>remote_calls := Suc (remote_calls svc)\<rparr>)
            else retry_loop remote w k (Suc a) n (svc\<lparr>remote_calls := Suc (remote_calls svc)\<rparr>))"
  using assms by (simp add: try_translate_def)

text \<open>
  C4. When the word is not cached and each of the \<open>MAX_RETRIES = 3\<close> calls raises an
  error whose lower-cased message contains \<open>timeout\<close>, \<open>handshake\<close>, \<open>ssl\<close> or
  \<open>connection\<close>, \<open>translate_to_swahili\<close> makes exactly three calls and then raises the
  network-error message; on the first and the second attempt the loop goes on to the
  next attempt.
\<close>

theorem transient_errors_exhaust_retries:
  assumes miss: "translation_cache svc (''en_to_sw_'' @ lower w) = None"
    and transient: "\<forall>i < GOOGLE_TRANSLATE_MAX_RETRIES.
           \<exists>msg. remote w (remote_calls svc + i) = Raised msg \<and> network_keyword (lower msg)"
  shows "GOOGLE_TRANSLATE_MAX_RETRIES = 3
    \<and> translate_to_swahili remote svc w =
        (Inl (Exception msg_network_error),
         svc\<lparr>remote_calls := remote_calls svc + GOOGLE_TRANSLATE_MAX_RETRIES\<rparr>)
    \<and> (\<forall>a < GOOGLE_TRANSLATE_MAX_RETRIES - 1.
          retry_loop remote w (''en_to_sw_'' @ lower w) a (GOOGLE_TRANSLATE_MAX_RETRIES - a)
            (svc\<lparr>remote_calls := remote_calls svc + a\<rparr>)
          = retry_loop remote w (''en_to_sw_'' @ lower w) (Suc a) (GOOGLE_TRANSLATE_MAX_RETRIES - Suc a)
              (svc\<lparr>remote_calls := remote_calls svc + Suc a\<rparr>))"
proof -
  let ?k = "''en_to_sw_'' @ lower w"
  let ?s = "\<lambda>i. svc\<lparr>remote_calls := remote_calls svc + i\<rparr>"
  have M: "GOOGLE_TRANSLATE_MAX_RETRIES = 3" by (simp add: GOOGLE_TRANSLATE_MAX_RETRIES_def)
  obtain m0 where m0: "remote w (remote_calls svc) = Raised m0" "network_keyword (lower m0)"
    using transient[rule_format, of 0] M by auto
  obtain m1 where m1: "remote w (remote_calls svc + 1) = Raised m1" "network_keyword (lower m1)"
    using transient[rule_format, of 1] M by auto
  obtain m2 where m2: "remote w (remote_calls svc + 2) = Raised m2" "network_keyword (lower m2)"
    using transient[rule_format, of 2] M by auto
  have s0: "retry_loop remote w ?k 0 3 (?s 0) = retry_loop remote w ?k 1 2 (?s 1)"
    using retry_loop_network_step[of remote w "?s 0" m0 ?k 0 2] m0
    by (simp add: M numeral_3_eq_3 numeral_2_eq_2)
  have s1: "retry_loop remote w ?k 1 2 (?s 1) = retry_loop remote w ?k 2 1 (?s 2)"
    using retry_loop_network_step[of remote w "?s 1" m1 ?k 1 1] m1
    by (simp add: M numeral_3_eq_3 numeral_2_eq_2)
  have s2: "retry_loop remote w ?k 2 1 (?s 2) = (Inl (Exception msg_network_error), ?s 3)"
    using retry_loop_network_step[of remote w "?s 2" m2 ?k 2 0] m2
    by (simp add: M numeral_3_eq_3 numeral_2_eq_2)
  have "translate_to_swahili remote svc w = retry_loop remote w ?k 0 3 (?s 0)"
    using miss by (simp add: translate_to_swahili_def M)
  then have res: "translate_to_swahili remote svc w = (Inl (Exception msg_network_error), ?s 3)"
    using s0 s1 s2 by simp
  have early: "retry_loop remote w ?k a (3 - a) (?s a) = retry_loop remote w ?k (Suc a) (3 - Suc a) (?s (Suc a))"
    if "a < 2" for a
  proof -
    from that have "a = 0 \<or> a = 1" by auto
    then show ?thesis using s0 s1 by (auto simp: numeral_2_eq_2)
  qed
  show ?thesis using M res early by simp
qed


theorem transient_errors_exhaust_retries_witness:
  "translate_to_swahili remote_always_timeout fresh_service ''Cat'' =
     (Inl (Exception msg_network_error), fresh_service\<lparr>remote_calls := 3\<rparr>)"
proof -
  have k: "network_keyword (lower ''Read Timeout'')" by code_simp
  show ?thesis
    using transient_errors_exhaust_retries[of fresh_service "''Cat''" remote_always_timeout] k
    by (simp add: GOOGLE_TRANSLATE_MAX_RETRIES_def fresh_service_def remote_always_timeout_def)
qed

text \<open>
  C8. A call that returns a missing or empty text raises \<open>Empty translation result\<close>
  inside the \<open>try\<close>; the message has none of the keywords, so the method fails on that
  very attempt, whichever it is, with the service error and makes no further call. No
  failing call of \<open>translate_to_swahili\<close> changes the cache.
\<close>

theorem empty_result_is_service_error:
  "(remote w (remote_calls svc) = Returned None \<or> remote w (remote_calls svc) = Returned (Some [])
      \<longrightarrow> retry_loop remote w k attempt (Suc left) svc =
            (Inl (Exception ''Translation service error: Empty translation result''),
             svc\<lparr>remote_calls := Suc (remote_calls svc)\<rparr>))
   \<and> (translation_cache svc (''en_to_sw_'' @ lower w) = None
       \<and> (remote w (remote_calls svc) = Returned None
           \<or> remote w (remote_calls svc) = Returned (Some []))
      \<longrightarrow> translate_to_swahili remote svc w =
            (Inl (Exception ''Translation service error: Empty translation result''),
             svc\<lparr>remote_calls := Suc (remote_calls svc)\<rparr>))
   \<and> (translate_to_swahili remote svc w = (Inl e, svc')
      \<longrightarrow> translation_cache svc' = translation_cache svc)"
proof -
  have step: "retry_loop remote w k a (Suc n) svc =
            (Inl (Exception ''Translation service error: Empty translation result''),
             svc\<lparr>remote_calls := Suc (remote_calls svc)\<rparr>)"
    if "remote w (remote_calls svc) = Returned None \<or> remote w (remote_calls svc) = Returned (Some [])"
    for k a n
  proof -
    have "try_translate (remote w (remote_calls svc)) = Inl ''Empty translation result''"
      using that by (auto simp: try_translate_def)
    then show ?thesis
      using empty_result_not_keyword by simp
  qed
  have whole: "translate_to_swahili remote svc w =
            (Inl (Exception ''Translation service error: Empty translation result''),
             svc\<lparr>remote_calls := Suc (remote_calls svc)\<rparr>)"
    if "translation_cache svc (''en_to_sw_'' @ lower w) = None"
      "remote w (remote_calls svc) = Returned None \<or> remote w (remote_calls svc) = Returned (Some [])"
    using that(1) step[OF that(2), of "''en_to_sw_'' @ lower w" 0 2]
    by (simp add: translate_to_swahili_def GOOGLE_TRANSLATE_MAX_RETRIES_def numeral_3_eq_3)
  have fail: "translation_cache svc' = translation_cache svc"
    if "translate_to_swahili remote svc w = (Inl e, svc')"
    using that retry_loop_cache_on_failure
    by (auto simp: translate_to_swahili_def Let_def split: option.splits)
  show ?thesis using step whole fail by blast
qed

theorem empty_result_is_service_error_witness:
  "translate_to_swahili remote_empty_text fresh_service ''cat'' =
     (Inl (Exception ''Translation service error: Empty translation result''),
      fresh_service\<lparr>remote_calls := 1\<rparr>)
   \<and> translation_cache (snd (translate_to_swahili remote_empty_text fresh_service ''cat''))
       = translation_cache fresh_service"
proof -
  have m: "translation_cache fresh_service (''en_to_sw_'' @ lower ''cat'') = None"
    by (simp add: fresh_service_def)
  have r: "remote_empty_text ''cat'' (remote_calls fresh_service) = Returned (Some [])"
    by (simp add: remote_empty_text_def)
  have "translate_to_swahili remote_empty_text fresh_service ''cat'' =
     (Inl (Exception ''Translation service error: Empty translation result''),
      fresh_service\<lparr>remote_calls := Suc (remote_calls fresh_service)\<rparr>)"
    using empty_result_is_service_error[of remote_empty_text "''cat''" fresh_service] m r by blast
  then show ?thesis by (simp add: fresh_service_def)
qed






lemma timeout_is_network: "network_keyword (lower ''Read Timeout'')"
  by code_simp







section \<open>The match cascade\<close>

lemma truthy_Some: "truthy v = Some s \<longleftrightarrow> v = Some s \<and> s \<noteq> []"
  by (auto simp: truthy_def split: option.splits)

lemma truthy_None: "truthy None = None"
  by (simp add: truthy_def)

lemma truthy_nonempty: "s \<noteq> [] \<Longrightarrow> truthy (Some s) = Some s"
  by (simp add: truthy_def)

lemma get_best_translation_filter:
  "get_best_translation ms t =
     (case filter (valid_translation t) ms of
        [] \<Rightarrow> None
      | r # _ \<Rightarrow> map_option strip (cell r t))"
proof (cases "filter (valid_translation t) ms")
  case Nil
  then show ?thesis by (simp add: get_best_translation_def)
next
  case (Cons r rs)
  then have "r \<in> set (filter (valid_translation t) ms)" by simp
  then have v: "valid_translation t r" by simp
  then obtain s where s: "cell r t = Some s" "strip s \<noteq> []"
    by (auto simp: valid_translation_def split: option.splits)
  have "ms \<noteq> []" using Cons by auto
  then show ?thesis using Cons s by (simp add: get_best_translation_def)
qed

lemma get_best_translation_Some:
  assumes "get_best_translation ms t = Some tr"
  shows "tr \<noteq> [] \<and> strip tr = tr \<and> (\<exists>r \<in> set ms. \<exists>s. cell r t = Some s \<and> tr = strip s)"
proof -
  from assms obtain r rs where f: "filter (valid_translation t) ms = r # rs"
    and tr: "map_option strip (cell r t) = Some tr"
    by (auto simp: get_best_translation_filter split: list.splits)
  have "r \<in> set (filter (valid_translation t) ms)" using f by simp
  then have r: "r \<in> set ms" "valid_translation t r" by auto
  from tr obtain s where s: "cell r t = Some s" "tr = strip s" by auto
  have "strip s \<noteq> []" using r(2) s(1) by (simp add: valid_translation_def)
  then show ?thesis using s r(1) by (auto simp: strip_strip)
qed

lemma get_best_translation_None:
  "get_best_translation ms t = None \<longleftrightarrow> (\<forall>r \<in> set ms. \<not> valid_translation t r)"
proof (cases "filter (valid_translation t) ms")
  case Nil
  then have "\<forall>r \<in> set ms. \<not> valid_translation t r" by (simp add: filter_empty_conv)
  then show ?thesis using Nil by (simp add: get_best_translation_filter)
next
  case (Cons r rs)
  then have "r \<in> set (filter (valid_translation t) ms)" by simp
  then have r: "r \<in> set ms" "valid_translation t r" by auto
  then have "map_option strip (cell r t) \<noteq> None"
    by (auto simp: valid_translation_def split: option.splits)
  then show ?thesis using Cons r by (auto simp: get_best_translation_filter)
qed

lemma find_filter_Cons:
  "find P xs = Some x \<Longrightarrow> \<exists>ys. filter P xs = x # ys"
  by (induction xs) (auto split: if_splits)

lemma get_best_translation_of_row_Inr:
  "get_best_translation_of_row r t = Inr x \<Longrightarrow> x = get_best_translation [r] t"
  by (auto simp: get_best_translation_of_row_def split: option.splits)

lemma fuzzy_loop_Some:
  "fuzzy_loop wp t rs (bm, bs) = Inr (Some tr, bs') \<Longrightarrow>
     bm = Some tr \<or> (\<exists>r \<in> set rs. get_best_translation [r] t = Some tr)"
proof (induction rs arbitrary: bm bs)
  case Nil
  then show ?case by simp
next
  case (Cons r rs)
  let ?e = "strip (lower (english r))"
  let ?sim = "similarity wp (set (split ?e))"
  show ?case
  proof (cases "?e \<noteq> [] \<and> wp \<union> set (split ?e) \<noteq> {} \<and> ?sim > bs \<and> ?sim \<ge> 1 / 2")
    case True
    show ?thesis
    proof (cases "get_best_translation_of_row r t")
      case (Inl e)
      with True Cons.prems show ?thesis by (simp add: Let_def)
    next
      case (Inr x)
      note x = get_best_translation_of_row_Inr[OF Inr]
      show ?thesis
      proof (cases x)
        case None
        with True Inr Cons.prems have "fuzzy_loop wp t rs (bm, bs) = Inr (Some tr, bs')"
          by (simp add: Let_def)
        from Cons.IH[OF this] show ?thesis by auto
      next
        case (Some tr0)
        with True Inr Cons.prems have "fuzzy_loop wp t rs (Some tr0, ?sim) = Inr (Some tr, bs')"
          by (simp add: Let_def)
        from Cons.IH[OF this] Some x show ?thesis by auto
      qed
    qed
  next
    case False
    with Cons.prems have "fuzzy_loop wp t rs (bm, bs) = Inr (Some tr, bs')"
      by (auto simp: Let_def split: if_splits)
    from Cons.IH[OF this] show ?thesis by auto
  qed
qed

lemma tier_results_nonblank:
  assumes "exact_match q t df = Some tr \<or> case_insensitive_match q t df = Some tr
           \<or> partial_match sort_values q t df = Some tr \<or> fuzzy_match q t df = Inr (Some tr)"
  shows "tr \<noteq> [] \<and> strip tr = tr"
proof -
  have "\<exists>ms. get_best_translation ms t = Some tr"
    using assms
  proof (elim disjE)
    assume "exact_match q t df = Some tr"
    then show ?thesis unfolding exact_match_def by blast
  next
    assume "case_insensitive_match q t df = Some tr"
    then show ?thesis unfolding case_insensitive_match_def by blast
  next
    assume "partial_match sort_values q t df = Some tr"
    then show ?thesis unfolding partial_match_def Let_def by (metis option.distinct(1))
  next
    assume "fuzzy_match q t df = Inr (Some tr)"
    then obtain bs' where "fuzzy_loop (set (split q)) t (rows df) (None, 0) = Inr (Some tr, bs')"
      unfolding fuzzy_match_def by (auto split: sum.splits)
    from fuzzy_loop_Some[OF this] show ?thesis by blast
  qed
  then show ?thesis using get_best_translation_Some by blast
qed

lemma search_in_csv_tier_nonblank:
  assumes "search_in_csv_tier sort_values w t df = Inr (Some (k, tr))"
  shows "tr \<noteq> [] \<and> strip tr = tr"
proof -
  have "exact_match (clean_word w) t df = Some tr
        \<or> case_insensitive_match (clean_word w) t df = Some tr
        \<or> partial_match sort_values (clean_word w) t df = Some tr
        \<or> fuzzy_match (clean_word w) t df = Inr (Some tr)"
    using assms
    by (auto simp: search_in_csv_tier_def Let_def truthy_Some
          split: if_splits option.splits sum.splits)
  then show ?thesis by (rule tier_results_nonblank)
qed

lemma search_in_csv_nonblank:
  assumes "search_in_csv sort_values w t df = Inr (Some tr)"
  shows "tr \<noteq> [] \<and> strip tr = tr"
proof -
  from assms obtain k where "search_in_csv_tier sort_values w t df = Inr (Some (k, tr))"
    by (auto simp: search_in_csv_def split: sum.splits)
  then show ?thesis by (rule search_in_csv_tier_nonblank)
qed

lemma respond_fst:
  "fst (respond app e tr t m s err) = Inr resp \<Longrightarrow>
     resp_method resp = m \<and> resp_translation resp = tr \<and> resp_success resp = s
     \<and> resp_error resp = err \<and> resp_english resp = e \<and> resp_target_language resp = t"
  by (auto simp: respond_def split: option.splits)

lemma respond_snd: "service (snd (respond app e tr t m s err)) = service app"
  by (auto simp: respond_def count_failed_def split: option.splits)



lemma local_success_nonblank:
  assumes "fst (translate_word remote sort_values df app request) = Inr resp"
    and "resp_success resp" and "resp_method resp \<noteq> ''google_translate''"
  shows "resp_translation resp \<noteq> []"
proof -
  let ?w = "strip (req_english_word request)"
  let ?t = "lower (req_target_language request)"
  obtain ok msg where v: "validate_input (req_english_word request) = (ok, msg)"
    by (cases "validate_input (req_english_word request)") auto
  have ok: ok using assms(1) v by (cases ok) (auto simp: translate_word_def Let_def)
  show ?thesis
  proof (cases "search_in_csv sort_values ?w ?t df")
    case (Inl e)
    with assms(1) v ok show ?thesis by (simp add: translate_word_def Let_def)
  next
    case (Inr found)
    show ?thesis
    proof (cases "truthy found")
      case (Some c)
      with Inr assms v ok show ?thesis
        by (auto simp: translate_word_def Let_def truthy_Some dest!: respond_fst)
    next
      case None
      show ?thesis
      proof (cases "truthy (get_fallback_translation ?w ?t)")
        case (Some f)
        with None Inr assms v ok show ?thesis
          by (auto simp: translate_word_def Let_def truthy_Some dest!: respond_fst)
      next
        case fb: None
        show ?thesis
        proof (cases "?t = ''swahili''")
          case False
          with fb None Inr assms v ok show ?thesis
            by (auto simp: translate_word_def Let_def dest!: respond_fst)
        next
          case True
          obtain res svc where r: "translate_to_swahili remote
              (service (app\<lparr>request_count := Suc (request_count app),
                       stats := (stats app)\<lparr>total_requests := Suc (total_requests (stats app))\<rparr>\<rparr>)) ?w = (res, svc)"
            by (metis prod.collapse)
          with True fb None Inr assms v ok show ?thesis
            by (auto simp: translate_word_def Let_def split: sum.splits dest!: respond_fst)
        qed
      qed
    qed
  qed
qed

text \<open>
  C9. What the match cascade returns is never blank (\<open>search_in_csv_nonblank\<close>), and a
  response that reports success for a translation from the table or the fallback
  dictionary carries a non-empty translation (\<open>local_success_nonblank\<close>). The remote
  branch breaks the property: \<open>translate_to_swahili\<close> tests the remote text before it
  strips it, so a text of one space passes the test, is stripped to the empty text,
  cached and returned, and the handler reports success with an empty translation.
\<close>

theorem remote_blank_reported_as_success:
  "fst (validate_input ''zebra'')
   \<and> search_in_csv stable_sort_by_length ''zebra'' ''swahili'' cat_table = Inr None
   \<and> get_fallback_translation ''zebra'' ''swahili'' = None
   \<and> fst (translate_to_swahili remote_blank fresh_service ''zebra'') = Inr []
   \<and> translation_cache (snd (translate_to_swahili remote_blank fresh_service ''zebra''))
        ''en_to_sw_zebra'' = Some []
   \<and> fst (translate_word remote_blank stable_sort_by_length cat_table fresh_app
            \<lparr>req_english_word = ''zebra'', req_target_language = ''swahili''\<rparr>)
       = Inr \<lparr>resp_english = ''zebra'', resp_translation = [], resp_target_language = ''swahili'',
               resp_language_name = ''Swahili'', resp_method = ''google_translate'',
               resp_success = True, resp_error = None\<rparr>"
  by code_simp

text \<open>
  C1 as stated fails. The exact tier compares the lower-cased, stripped source word of a
  row with the cleaned query; it removes no punctuation from the row. The row \<open>Stop!\<close>
  equals the query \<open>stop\<close> after normalization and comes first, yet the exact tier
  returns the translation of the later row \<open>stop\<close>; alone in the table, the row \<open>Stop!\<close>
  is found by the partial tier only.
\<close>

theorem exact_tier_counterexample:
  "clean_word (english (sw_row ''Stop!'' ''simama'')) = clean_word ''stop''
   \<and> spec_exact_match ''stop'' ''swahili'' stop_table = Some ''simama''
   \<and> search_in_csv_tier stable_sort_by_length ''stop'' ''swahili'' stop_table
       = Inr (Some (Exact, ''acha''))
   \<and> spec_exact_match ''stop'' ''swahili'' (sw_table [sw_row ''Stop!'' ''simama'']) = Some ''simama''
   \<and> search_in_csv_tier stable_sort_by_length ''stop'' ''swahili''
        (sw_table [sw_row ''Stop!'' ''simama''])
       = Inr (Some (Partial, ''simama''))"
  by code_simp

text \<open>
  C1, amended. When the table has the column of the target language and some row whose
  lower-cased, stripped source word equals the cleaned query has a non-blank
  translation, \<open>search_in_csv\<close> returns the stripped translation of the first such row in
  load order, and it is the exact tier that returns it.
\<close>

theorem exact_tier_wins:
  assumes col: "target_language \<in> set (columns df)"
    and first: "find (\<lambda>r. strip (lower (english r)) = clean_word w
                          \<and> valid_translation target_language r) (rows df) = Some r"
  shows "\<exists>s. cell r target_language = Some s \<and> strip s \<noteq> []
           \<and> search_in_csv_tier sort_values w target_language df = Inr (Some (Exact, strip s))
           \<and> search_in_csv sort_values w target_language df = Inr (Some (strip s))"
proof -
  let ?P = "\<lambda>r. strip (lower (english r)) = clean_word w"
  from find_filter_Cons[OF first] obtain ys where
    "filter (\<lambda>r. ?P r \<and> valid_translation target_language r) (rows df) = r # ys" by blast
  then have f: "filter (valid_translation target_language) (filter ?P (rows df)) = r # ys"
    by simp
  have "r \<in> set (filter (valid_translation target_language) (filter ?P (rows df)))"
    unfolding f by simp
  then have "valid_translation target_language r" by simp
  then obtain s where s: "cell r target_language = Some s" "strip s \<noteq> []"
    by (auto simp: valid_translation_def split: option.splits)
  have ex: "exact_match (clean_word w) target_language df = Some (strip s)"
    unfolding exact_match_def get_best_translation_filter f using s by simp
  have ne: "rows df \<noteq> []" using first by auto
  have "search_in_csv_tier sort_values w target_language df = Inr (Some (Exact, strip s))"
    using col ne ex s(2) by (simp add: search_in_csv_tier_def truthy_nonempty)
  then show ?thesis using s by (simp add: search_in_csv_def)
qed

theorem exact_tier_wins_witness:
  "search_in_csv_tier stable_sort_by_length '' STOP '' ''swahili'' stop_table
     = Inr (Some (Exact, ''acha''))
   \<and> search_in_csv stable_sort_by_length '' STOP '' ''swahili'' stop_table = Inr (Some ''acha'')"
proof -
  have c: "''swahili'' \<in> set (columns stop_table)" by code_simp
  have f: "find (\<lambda>r. strip (lower (english r)) = clean_word '' STOP ''
                          \<and> valid_translation ''swahili'' r) (rows stop_table)
           = Some (sw_row ''stop'' ''acha'')" by code_simp
  have s: "cell (sw_row ''stop'' ''acha'') ''swahili'' = Some ''acha''" "strip ''acha'' = ''acha''"
    by code_simp+
  from exact_tier_wins[OF c f, of stable_sort_by_length] s show ?thesis by auto
qed

text \<open>
  The partial tier with any sort that orders by length: what it returns is the
  stripped translation of a row whose entry contains the query, and no row with a
  translation whose entry contains the query has a shorter entry. The stable sort
  is one such sort.
\<close>

lemma stable_sort_sorts_by_length: "sorts_by_length stable_sort_by_length"
  by (simp add: sorts_by_length_def stable_sort_by_length_def)

lemma set_drop_duplicates_from: "set (drop_duplicates_from seen xs) = set xs - set seen"
  by (induction xs arbitrary: seen) auto

lemma set_drop_duplicates: "set (drop_duplicates xs) = set xs"
  by (simp add: drop_duplicates_def set_drop_duplicates_from)

lemma partial_match_shortest_candidate:
  assumes srt: "sorts_by_length sort_values"
    and res: "partial_match sort_values q t df = Some tr"
  shows "\<exists>r \<in> set (rows df). \<exists>s. py_in q (lower (english r)) \<and> cell r t = Some s
           \<and> strip s \<noteq> [] \<and> tr = strip s
           \<and> (\<forall>r' \<in> set (rows df). py_in q (lower (english r')) \<and> valid_translation t r'
                 \<longrightarrow> length (english r) \<le> length (english r'))"
proof -
  define A where "A = filter (\<lambda>r. py_in q (lower (english r))) (rows df)"
  define B where "B = filter (\<lambda>r. let x = lower (english r) in if x \<noteq> [] then py_in q x else False) (rows df)"
  define al where "al = drop_duplicates (A @ B)"
  define ys where "ys = sort_values al"
  have BA: "set B \<subseteq> set A" unfolding A_def B_def by (auto simp: Let_def)
  have "set al = set A \<union> set B" unfolding al_def by (simp add: set_drop_duplicates)
  then have al: "set al = set A" using BA by blast
  have ms: "mset ys = mset al" and so: "sorted (map (\<lambda>r. length (english r)) ys)"
    using srt unfolding ys_def sorts_by_length_def by blast+
  have "set_mset (mset ys) = set_mset (mset al)" using ms by simp
  then have ys: "set ys = set A" using al by simp
  have pm: "partial_match sort_values q t df = (if al \<noteq> [] then get_best_translation ys t else None)"
    unfolding partial_match_def Let_def ys_def al_def A_def B_def ..
  have g: "get_best_translation ys t = Some tr"
    using res unfolding pm by (simp split: if_splits)
  then obtain r rest where f: "filter (valid_translation t) ys = r # rest"
    and c: "map_option strip (cell r t) = Some tr"
    unfolding get_best_translation_filter by (simp split: list.splits)
  from f obtain pre post where sp: "ys = pre @ r # post"
    and pre: "\<forall>u \<in> set pre. \<not> valid_translation t u" and vr: "valid_translation t r"
    unfolding filter_eq_Cons_iff by blast
  from c obtain s where s: "cell r t = Some s" "tr = strip s" by auto
  have sne: "strip s \<noteq> []" using vr s(1) by (simp add: valid_translation_def)
  have "r \<in> set ys" unfolding sp by simp
  then have rin: "r \<in> set A" using ys by simp
  then have rdf: "r \<in> set (rows df)" and rq: "py_in q (lower (english r))"
    unfolding A_def by simp_all
  have least: "length (english r) \<le> length (english r')"
    if h: "r' \<in> set (rows df)" "py_in q (lower (english r'))" "valid_translation t r'" for r'
  proof -
    have "r' \<in> set A" using h(1,2) unfolding A_def by simp
    then have "r' \<in> set ys" using ys by simp
    then have "r' \<in> set pre \<or> r' \<in> set (r # post)" unfolding sp by auto
    then have in_post: "r' \<in> set (r # post)" using pre h(3) by blast
    have "sorted (map (\<lambda>r. length (english r)) (r # post))"
      using so unfolding sp by (simp add: sorted_append)
    then have "\<forall>u \<in> set post. length (english r) \<le> length (english u)" by simp
    then show ?thesis using in_post by auto
  qed
  show ?thesis
    apply (rule bexI[OF _ rdf])
    apply (rule exI[of _ s])
    using rq s sne least by blast
qed

text \<open>
  C5. Both masks of \<open>_partial_match\<close> test whether the entry contains the query, so an
  entry that is contained in the query is no candidate: for the query \<open>notebook\<close> the
  row \<open>book\<close>, with a translation, is not found, and \<open>search_in_csv\<close> returns nothing,
  whatever the sort. In the other direction the tier works, the shorter entry first.
\<close>

theorem partial_tier_misses_contained_entry:
  "py_in (lower (english (sw_row ''book'' ''kitabu''))) (clean_word ''notebook'')
   \<and> valid_translation ''swahili'' (sw_row ''book'' ''kitabu'')
   \<and> exact_match (clean_word ''notebook'') ''swahili'' book_table = None
   \<and> case_insensitive_match (clean_word ''notebook'') ''swahili'' book_table = None
   \<and> partial_match sort_values (clean_word ''notebook'') ''swahili'' book_table = None
   \<and> search_in_csv sort_values ''notebook'' ''swahili'' book_table = Inr None
   \<and> partial_match stable_sort_by_length (clean_word ''book'') ''swahili'' notebook_table
       = Some ''kitabu changu''"
  by code_simp


section \<open>The handler\<close>

lemma translate_word_other_language:
  assumes "lower (req_target_language request) \<noteq> ''swahili''"
  shows "service (snd (translate_word remote sort_values df app request)) = service app
         \<and> translate_word remote sort_values df app request = translate_word remote' sort_values df app request"
proof -
  obtain ok msg where v: "validate_input (req_english_word request) = (ok, msg)"
    by (cases "validate_input (req_english_word request)") auto
  show ?thesis
    using assms v
    by (cases ok)
       (auto simp: translate_word_def Let_def respond_snd count_failed_def count_successful_def
          count_csv_lookup_def count_fallback_dictionary_def count_not_found_def
          split: option.splits sum.splits)
qed

text \<open>
  C7. For a target language other than \<open>swahili\<close> the handler makes no remote call: the
  translation service is left as it was and the outcome does not depend on the remote
  service. For \<open>haya\<close> and \<open>sukuma\<close>, a valid word that neither the table nor the
  fallback dictionary translates gets a response (no exception) with method
  \<open>not_found\<close>, success false, an empty translation and the message that no translation
  was found.
\<close>

theorem no_remote_for_other_languages:
  "(lower (req_target_language request) \<noteq> ''swahili'' \<longrightarrow>
      service (snd (translate_word remote sort_values df app request)) = service app
      \<and> translate_word remote sort_values df app request = translate_word remote' sort_values df app request)
   \<and> (fst (validate_input (req_english_word request))
       \<and> (lower (req_target_language request) = ''haya''
           \<or> lower (req_target_language request) = ''sukuma'')
       \<and> search_in_csv sort_values (strip (req_english_word request))
            (lower (req_target_language request)) df = Inr None
       \<and> get_fallback_translation (strip (req_english_word request))
            (lower (req_target_language request)) = None
      \<longrightarrow> (\<exists>name. translate_word remote sort_values df app request =
            (Inr \<lparr>resp_english = strip (req_english_word request), resp_translation = [],
                  resp_target_language = lower (req_target_language request),
                  resp_language_name = name, resp_method = ''not_found'',
                  resp_success = False,
                  resp_error = Some (''No '' @ lower (req_target_language request)
                       @ '' translation found for '' @ [CHR 0x27]
                       @ strip (req_english_word request) @ [CHR 0x27])\<rparr>,
             count_not_found (count_failed
               (app\<lparr>request_count := Suc (request_count app),
                     stats := (stats app)\<lparr>total_requests := Suc (total_requests (stats app))\<rparr>\<rparr>)))))"
proof -
  have a: "service (snd (translate_word remote sort_values df app request)) = service app
      \<and> translate_word remote sort_values df app request = translate_word remote' sort_values df app request"
    if "lower (req_target_language request) \<noteq> ''swahili''"
    using that by (rule translate_word_other_language)
  have b: "\<exists>name. translate_word remote sort_values df app request =
            (Inr \<lparr>resp_english = strip (req_english_word request), resp_translation = [],
                  resp_target_language = lower (req_target_language request),
                  resp_language_name = name, resp_method = ''not_found'',
                  resp_success = False,
                  resp_error = Some (''No '' @ lower (req_target_language request)
                       @ '' translation found for '' @ [CHR 0x27]
                       @ strip (req_english_word request) @ [CHR 0x27])\<rparr>,
             count_not_found (count_failed
               (app\<lparr>request_count := Suc (request_count app),
                     stats := (stats app)\<lparr>total_requests := Suc (total_requests (stats app))\<rparr>\<rparr>)))"
    if ok: "fst (validate_input (req_english_word request))"
      and lang: "lower (req_target_language request) = ''haya''
           \<or> lower (req_target_language request) = ''sukuma''"
      and miss: "search_in_csv sort_values (strip (req_english_word request))
            (lower (req_target_language request)) df = Inr None"
      and fb: "get_fallback_translation (strip (req_english_word request))
            (lower (req_target_language request)) = None"
  proof -
    obtain msg where v: "validate_input (req_english_word request) = (True, msg)"
      using ok by (cases "validate_input (req_english_word request)") auto
    have ns: "lower (req_target_language request) \<noteq> ''swahili''" using lang by auto
    have sup: "\<exists>name. map_of SUPPORTED_LANGUAGES (lower (req_target_language request)) = Some name"
      using lang by (auto simp: SUPPORTED_LANGUAGES_def)
    then obtain name where name: "map_of SUPPORTED_LANGUAGES (lower (req_target_language request)) = Some name"
      by blast
    show ?thesis
      using v ns miss fb name
      by (simp add: translate_word_def Let_def truthy_None respond_def)
  qed
  show ?thesis using a b by blast
qed

theorem no_remote_for_other_languages_witness:
  "translate_word remote_paka stable_sort_by_length cat_table fresh_app
      \<lparr>req_english_word = ''zebra'', req_target_language = ''haya''\<rparr>
   = (Inr \<lparr>resp_english = ''zebra'', resp_translation = [], resp_target_language = ''haya'',
           resp_language_name = ''Haya'', resp_method = ''not_found'', resp_success = False,
           resp_error = Some (''No haya translation found for 'zebra'' @ [CHR 0x27])\<rparr>,
      count_not_found (count_failed
        (fresh_app\<lparr>request_count := 1, stats := (stats fresh_app)\<lparr>total_requests := 1\<rparr>\<rparr>)))
   \<and> service (snd (translate_word remote_paka stable_sort_by_length cat_table fresh_app
        \<lparr>req_english_word = ''zebra'', req_target_language = ''haya''\<rparr>)) = service fresh_app"
proof -
  let ?rq = "\<lparr>req_english_word = ''zebra'', req_target_language = ''haya''\<rparr>"
  have l: "lower ''haya'' = ''haya''" by code_simp
  have w: "strip ''zebra'' = ''zebra''" by code_simp
  have h1: "lower (req_target_language ?rq) \<noteq> ''swahili''" by code_simp
  have h2: "fst (validate_input (req_english_word ?rq))" by code_simp
  have h2': "lower (req_target_language ?rq) = ''haya''
             \<or> lower (req_target_language ?rq) = ''sukuma''" by code_simp
  have h3: "search_in_csv stable_sort_by_length (strip (req_english_word ?rq)) (lower (req_target_language ?rq)) cat_table = Inr None"
    by code_simp
  have h4: "get_fallback_translation (strip (req_english_word ?rq)) (lower (req_target_language ?rq)) = None"
    by code_simp
  note T = no_remote_for_other_languages[where request = ?rq and df = cat_table and app = fresh_app
      and remote = remote_paka and remote' = remote_paka and sort_values = stable_sort_by_length]
  have svc: "service (snd (translate_word remote_paka stable_sort_by_length cat_table fresh_app ?rq)) = service fresh_app"
    using T[THEN conjunct1, THEN mp, OF h1] by (rule conjunct1)
  obtain name where r: "translate_word remote_paka stable_sort_by_length cat_table fresh_app ?rq =
            (Inr \<lparr>resp_english = strip (req_english_word ?rq), resp_translation = [],
                  resp_target_language = lower (req_target_language ?rq),
                  resp_language_name = name, resp_method = ''not_found'',
                  resp_success = False,
                  resp_error = Some (''No '' @ lower (req_target_language ?rq)
                       @ '' translation found for '' @ [CHR 0x27]
                       @ strip (req_english_word ?rq) @ [CHR 0x27])\<rparr>,
             count_not_found (count_failed
               (fresh_app\<lparr>request_count := Suc (request_count fresh_app),
                     stats := (stats fresh_app)\<lparr>total_requests := Suc (total_requests (stats fresh_app))\<rparr>\<rparr>)))"
    using T[THEN conjunct2, THEN mp, OF conjI[OF h2 conjI[OF h2' conjI[OF h3 h4]]]] by (rule exE)
  have "resp_language_name (projr (fst (translate_word remote_paka stable_sort_by_length cat_table fresh_app ?rq))) = ''Haya''"
    by code_simp
  then have nm: "name = ''Haya''" unfolding r by simp
  show ?thesis using svc unfolding r nm by (simp add: l w fresh_app_def)
qed



section \<open>The fuzzy tier\<close>

lemma spec_score_similarity:
  "spec_score q r = similarity (set (split q)) (set (split (strip (lower (english r)))))"
  by (simp add: spec_score_def spec_jaccard_def similarity_def Let_def)

lemma split_Nil: "split [] = []"
  by (simp add: split_def)

lemma similarity_zero:
  "a \<inter> b = {} \<Longrightarrow> similarity a b = 0"
  by (simp add: similarity_def)

lemma get_best_translation_single:
  "get_best_translation [r] t = (if valid_translation t r then map_option strip (cell r t) else None)"
  by (simp add: get_best_translation_filter)

lemma valid_translation_cell:
  "valid_translation t r \<Longrightarrow> \<exists>s. cell r t = Some s \<and> strip s \<noteq> []"
  by (auto simp: valid_translation_def split: option.splits)

lemma fuzzy_loop_test:
  "(strip (lower (english r)) \<noteq> []
     \<and> set (split q) \<union> set (split (strip (lower (english r)))) \<noteq> {}
     \<and> bs < similarity (set (split q)) (set (split (strip (lower (english r)))))
     \<and> 1 / 2 \<le> similarity (set (split q)) (set (split (strip (lower (english r))))))
   \<longleftrightarrow> (bs < spec_score q r \<and> 1 / 2 \<le> spec_score q r)"
proof -
  let ?e = "strip (lower (english r))"
  let ?wp = "set (split q)"
  let ?ep = "set (split ?e)"
  have sc: "spec_score q r = similarity ?wp ?ep" by (rule spec_score_similarity)
  have nz: "?e \<noteq> [] \<and> ?wp \<union> ?ep \<noteq> {}" if "similarity ?wp ?ep \<ge> 1 / 2"
  proof -
    have "similarity ?wp ?ep \<noteq> 0" using that by auto
    then have "?wp \<inter> ?ep \<noteq> {}" using similarity_zero by blast
    then have "?ep \<noteq> {}" "?wp \<union> ?ep \<noteq> {}" by auto
    then show ?thesis using split_Nil by auto
  qed
  show ?thesis unfolding sc using nz by blast
qed

lemma fuzzy_loop_skip:
  assumes "\<not> (bs < spec_score q r \<and> 1 / 2 \<le> spec_score q r)"
  shows "fuzzy_loop (set (split q)) t (r # rs) (bm, bs) = fuzzy_loop (set (split q)) t rs (bm, bs)"
  using assms fuzzy_loop_test[of r q bs] by (auto simp: Let_def)

lemma fuzzy_loop_take:
  assumes "bs < spec_score q r" "1 / 2 \<le> spec_score q r"
  shows "fuzzy_loop (set (split q)) t (r # rs) (bm, bs) =
           (case cell r t of
              None \<Rightarrow> Inl (AttributeError msg_str_accessor)
            | Some s \<Rightarrow>
                if strip s \<noteq> []
                then fuzzy_loop (set (split q)) t rs (Some (strip s), spec_score q r)
                else fuzzy_loop (set (split q)) t rs (bm, bs))"
proof -
  let ?e = "strip (lower (english r))"
  have c: "?e \<noteq> []" "set (split q) \<union> set (split ?e) \<noteq> {}"
    "bs < similarity (set (split q)) (set (split ?e))"
    "1 / 2 \<le> similarity (set (split q)) (set (split ?e))"
    using assms fuzzy_loop_test[of r q bs] by auto
  show ?thesis
  proof (cases "cell r t")
    case None
    then show ?thesis using c by (simp add: Let_def get_best_translation_of_row_def)
  next
    case (Some s)
    then show ?thesis using c
      by (simp add: Let_def get_best_translation_of_row_def get_best_translation_single
            valid_translation_def spec_score_similarity)
  qed
qed

lemma fuzzy_loop_step:
  assumes "cell r t \<noteq> None"
  shows "fuzzy_loop (set (split q)) t (r # rs) (bm, bs) =
     (if spec_score q r \<ge> 1 / 2 \<and> valid_translation t r \<and> bs < spec_score q r
      then fuzzy_loop (set (split q)) t rs (map_option strip (cell r t), spec_score q r)
      else fuzzy_loop (set (split q)) t rs (bm, bs))"
proof (cases "bs < spec_score q r \<and> 1 / 2 \<le> spec_score q r")
  case False
  then show ?thesis using fuzzy_loop_skip[OF False] by auto
next
  case True
  obtain s where s: "cell r t = Some s" using assms by auto
  show ?thesis
    using True s fuzzy_loop_take[of bs q r t rs bm]
    by (auto simp: valid_translation_def)
qed

lemma fuzzy_loop_below_threshold:
  assumes "\<forall>r \<in> set rs. spec_score q r < 1 / 2"
  shows "fuzzy_loop (set (split q)) t rs (bm, bs) = Inr (bm, bs)"
  using assms
proof (induction rs)
  case Nil
  then show ?case by simp
next
  case (Cons r rs)
  then have "\<not> (bs < spec_score q r \<and> 1 / 2 \<le> spec_score q r)" by auto
  from fuzzy_loop_skip[OF this] Cons show ?case by simp
qed

lemma list_has_maximum:
  fixes f :: "'a \<Rightarrow> rat"
  assumes "xs \<noteq> []"
  shows "\<exists>x \<in> set xs. \<forall>y \<in> set xs. f y \<le> f x"
proof -
  have fin: "finite (f ` set xs)" and ne: "f ` set xs \<noteq> {}" using assms by auto
  from Max_in[OF fin ne] obtain x where x: "x \<in> set xs" "f x = Max (f ` set xs)" by auto
  have "\<forall>y \<in> set xs. f y \<le> f x" using Max_ge[OF fin] x(2) by auto
  with x(1) show ?thesis by blast
qed

lemma fuzzy_loop_result:
  assumes "\<forall>r \<in> set rs. cell r t \<noteq> None"
  shows "fuzzy_loop (set (split q)) t rs (bm, bs) =
     Inr (case find (\<lambda>x. bs < spec_score q x
                      \<and> (\<forall>r' \<in> set (spec_fuzzy_candidates q t rs). spec_score q r' \<le> spec_score q x))
             (spec_fuzzy_candidates q t rs) of
        None \<Rightarrow> (bm, bs)
      | Some x \<Rightarrow> (map_option strip (cell x t), spec_score q x))"
  using assms
proof (induction rs arbitrary: bm bs)
  case Nil
  then show ?case by (simp add: spec_fuzzy_candidates_def)
next
  case (Cons r rs)
  let ?cs = "spec_fuzzy_candidates q t rs"
  let ?E = "spec_score q r \<ge> 1 / 2 \<and> valid_translation t r"
  have present: "cell r t \<noteq> None" and rest: "\<forall>r \<in> set rs. cell r t \<noteq> None"
    using Cons.prems by auto
  note IH = Cons.IH[OF rest]
  note stp = fuzzy_loop_step[OF present, of q rs]
  show ?case
  proof (cases ?E)
    case notE: False
    then have cs: "spec_fuzzy_candidates q t (r # rs) = ?cs"
      by (auto simp: spec_fuzzy_candidates_def)
    have "fuzzy_loop (set (split q)) t (r # rs) (bm, bs) = fuzzy_loop (set (split q)) t rs (bm, bs)"
      unfolding stp using notE by auto
    then show ?thesis unfolding cs using IH[of bm bs] by simp
  next
    case E: True
    then have cs: "spec_fuzzy_candidates q t (r # rs) = r # ?cs"
      by (simp add: spec_fuzzy_candidates_def)
    show ?thesis
    proof (cases "bs < spec_score q r")
      case low: False
      have "find (\<lambda>x. bs < spec_score q x \<and> (\<forall>r' \<in> set (r # ?cs). spec_score q r' \<le> spec_score q x)) ?cs
            = find (\<lambda>x. bs < spec_score q x \<and> (\<forall>r' \<in> set ?cs. spec_score q r' \<le> spec_score q x)) ?cs"
        using low by (intro find_cong) auto
      moreover have "fuzzy_loop (set (split q)) t (r # rs) (bm, bs)
                     = fuzzy_loop (set (split q)) t rs (bm, bs)"
        unfolding stp using low by auto
      ultimately show ?thesis unfolding cs using low IH[of bm bs] by simp
    next
      case high: True
      have step: "fuzzy_loop (set (split q)) t (r # rs) (bm, bs)
                  = fuzzy_loop (set (split q)) t rs (map_option strip (cell r t), spec_score q r)"
        unfolding stp using E high by auto
      show ?thesis
      proof (cases "\<forall>r' \<in> set ?cs. spec_score q r' \<le> spec_score q r")
        case top: True
        have "find (\<lambda>x. spec_score q r < spec_score q x
                        \<and> (\<forall>r' \<in> set ?cs. spec_score q r' \<le> spec_score q x)) ?cs = None"
          using top by (auto simp: find_None_iff)
        then show ?thesis unfolding cs step using high top
          by (simp add: IH[of "map_option strip (cell r t)" "spec_score q r"])
      next
        case nottop: False
        have "find (\<lambda>x. bs < spec_score q x \<and> (\<forall>r' \<in> set (r # ?cs). spec_score q r' \<le> spec_score q x)) ?cs
            = find (\<lambda>x. spec_score q r < spec_score q x
                        \<and> (\<forall>r' \<in> set ?cs. spec_score q r' \<le> spec_score q x)) ?cs"
        proof (intro find_cong refl)
          fix x assume "x \<in> set ?cs"
          show "(bs < spec_score q x \<and> (\<forall>r' \<in> set (r # ?cs). spec_score q r' \<le> spec_score q x))
              = (spec_score q r < spec_score q x \<and> (\<forall>r' \<in> set ?cs. spec_score q r' \<le> spec_score q x))"
            using high nottop by fastforce
        qed
        moreover have "find (\<lambda>x. spec_score q r < spec_score q x
                        \<and> (\<forall>r' \<in> set ?cs. spec_score q r' \<le> spec_score q x)) ?cs \<noteq> None"
        proof -
          from nottop obtain c where c: "c \<in> set ?cs" "spec_score q r < spec_score q c" by auto
          then have "?cs \<noteq> []" by auto
          from list_has_maximum[OF this, of "spec_score q"] obtain m where
            m: "m \<in> set ?cs" "\<forall>y \<in> set ?cs. spec_score q y \<le> spec_score q m" by blast
          have "spec_score q r < spec_score q m" using c m(2) by fastforce
          then show ?thesis using m by (auto simp: find_None_iff)
        qed
        ultimately show ?thesis unfolding cs step using high nottop
          by (auto simp: IH[of "map_option strip (cell r t)" "spec_score q r"])
      qed
    qed
  qed
qed

lemma fuzzy_match_spec:
  assumes "\<forall>r \<in> set (rows df). cell r t \<noteq> None"
  shows "fuzzy_match q t df = Inr (spec_fuzzy_match q t (rows df))"
proof -
  let ?cs = "spec_fuzzy_candidates q t (rows df)"
  have "find (\<lambda>x. 0 < spec_score q x \<and> (\<forall>r' \<in> set ?cs. spec_score q r' \<le> spec_score q x)) ?cs
        = find (\<lambda>x. \<forall>r' \<in> set ?cs. spec_score q r' \<le> spec_score q x) ?cs"
  proof (intro find_cong refl)
    fix x assume "x \<in> set ?cs"
    then have "spec_score q x \<ge> 1 / 2" by (simp add: spec_fuzzy_candidates_def)
    then have "0 < spec_score q x" by simp
    then show "(0 < spec_score q x \<and> (\<forall>r' \<in> set ?cs. spec_score q r' \<le> spec_score q x))
             = (\<forall>r' \<in> set ?cs. spec_score q r' \<le> spec_score q x)" by simp
  qed
  then show ?thesis
    unfolding fuzzy_match_def spec_fuzzy_match_def fuzzy_loop_result[OF assms] Let_def
    by (simp split: option.splits)
qed

lemma fuzzy_match_below_threshold:
  assumes "\<forall>r \<in> set (rows df). spec_score q r < 1 / 2"
  shows "fuzzy_match q t df = Inr None"
  unfolding fuzzy_match_def fuzzy_loop_below_threshold[OF assms] by simp

lemma spec_fuzzy_match_None:
  assumes "\<forall>r \<in> set rs. spec_score q r < 1 / 2 \<or> \<not> valid_translation t r"
  shows "spec_fuzzy_match q t rs = None"
proof -
  have "spec_fuzzy_candidates q t rs = []"
    using assms by (auto simp: spec_fuzzy_candidates_def filter_empty_conv)
  then show ?thesis by (simp add: spec_fuzzy_match_def)
qed

lemma spec_score_disjoint:
  assumes "set (split q) \<inter> set (split (strip (lower (english r)))) = {}"
  shows "spec_score q r = 0"
  using assms by (simp add: spec_score_similarity similarity_zero)

lemma spec_score_equal:
  assumes "strip (lower (english r)) = q" "split q \<noteq> []"
  shows "spec_score q r = 1"
proof -
  have "card (set (split q)) \<noteq> 0" using assms(2) by simp
  then show ?thesis
    using assms(1) by (simp add: spec_score_similarity similarity_def)
qed

lemma spec_fuzzy_match_Some:
  assumes "r \<in> set rs" "spec_score q r \<ge> 1 / 2" "valid_translation t r"
  shows "\<exists>tr. spec_fuzzy_match q t rs = Some tr"
proof -
  let ?cs = "spec_fuzzy_candidates q t rs"
  have "r \<in> set ?cs" using assms by (simp add: spec_fuzzy_candidates_def)
  then have "?cs \<noteq> []" by auto
  from list_has_maximum[OF this, of "spec_score q"] obtain m where
    m: "m \<in> set ?cs" "\<forall>y \<in> set ?cs. spec_score q y \<le> spec_score q m" by blast
  then have "find (\<lambda>x. \<forall>r' \<in> set ?cs. spec_score q r' \<le> spec_score q x) ?cs \<noteq> None"
    by (auto simp: find_None_iff)
  then obtain x where x: "find (\<lambda>x. \<forall>r' \<in> set ?cs. spec_score q r' \<le> spec_score q x) ?cs = Some x"
    by auto
  then have "x \<in> set ?cs" by (auto simp: find_Some_iff)
  then have "valid_translation t x" by (simp add: spec_fuzzy_candidates_def)
  then obtain s where "cell x t = Some s" using valid_translation_cell by blast
  then show ?thesis using x by (simp add: spec_fuzzy_match_def)
qed



text \<open>
  A row that passes the similarity test with a missing cell in the column of the target
  language makes \<open>_fuzzy_match\<close>, and with it \<open>search_in_csv\<close>, raise.
\<close>

lemma fuzzy_match_missing_cell_raises:
  "fuzzy_match (clean_word ''good morning friend'') ''swahili'' gap_table
     = Inl (AttributeError msg_str_accessor)
   \<and> search_in_csv stable_sort_by_length ''good morning friend'' ''swahili'' gap_table
     = Inl (AttributeError msg_str_accessor)"
  by code_simp

text \<open>
  C2. On a table whose rows all have a text in the column of the target language, as
  the loader delivers it: when the table is not empty, has that column, and the exact,
  case-insensitive and partial tiers find nothing, \<open>search_in_csv\<close> returns what the
  fuzzy tier returns, and the fuzzy tier returns the translation of the row with the
  highest Jaccard similarity among the rows that score at least 0.5 and have a non-blank
  translation, the earliest of them when several score the same. It returns nothing
  when no such row reaches 0.5. On any table it returns nothing when no row reaches
  0.5, in particular when the query shares no token with any entry. A query equal to an
  entry of two or more tokens scores 1 and is matched.
\<close>

theorem fuzzy_tier_best_row:
  "((\<forall>r \<in> set (rows df). cell r t \<noteq> None) \<and> rows df \<noteq> [] \<and> t \<in> set (columns df)
      \<and> exact_match (clean_word w) t df = None
      \<and> case_insensitive_match (clean_word w) t df = None
      \<and> partial_match sort_values (clean_word w) t df = None
     \<longrightarrow> search_in_csv_tier sort_values w t df
           = Inr (map_option (Pair Fuzzy) (spec_fuzzy_match (clean_word w) t (rows df))))
   \<and> ((\<forall>r \<in> set (rows df). cell r t \<noteq> None)
        \<longrightarrow> fuzzy_match q t df = Inr (spec_fuzzy_match q t (rows df)))
   \<and> ((\<forall>r \<in> set (rows df). spec_score q r < 1 / 2) \<longrightarrow> fuzzy_match q t df = Inr None)
   \<and> ((\<forall>r \<in> set (rows df). cell r t \<noteq> None)
        \<and> (\<forall>r \<in> set (rows df). spec_score q r < 1 / 2 \<or> \<not> valid_translation t r)
        \<longrightarrow> fuzzy_match q t df = Inr None)
   \<and> ((\<forall>r \<in> set (rows df). set (split q) \<inter> set (split (strip (lower (english r)))) = {})
        \<longrightarrow> fuzzy_match q t df = Inr None)
   \<and> ((\<forall>r' \<in> set (rows df). cell r' t \<noteq> None)
        \<and> r \<in> set (rows df) \<and> strip (lower (english r)) = q \<and> 2 \<le> length (split q)
        \<and> valid_translation t r
        \<longrightarrow> spec_score q r = 1 \<and> (\<exists>tr. fuzzy_match q t df = Inr (Some tr)))"
proof -
  have a: "search_in_csv_tier sort_values w t df
           = Inr (map_option (Pair Fuzzy) (spec_fuzzy_match (clean_word w) t (rows df)))"
    if p: "\<forall>r \<in> set (rows df). cell r t \<noteq> None"
      and h: "rows df \<noteq> []" "t \<in> set (columns df)" "exact_match (clean_word w) t df = None"
      "case_insensitive_match (clean_word w) t df = None"
      "partial_match sort_values (clean_word w) t df = None"
  proof -
    have fm: "fuzzy_match (clean_word w) t df = Inr (spec_fuzzy_match (clean_word w) t (rows df))"
      using p by (rule fuzzy_match_spec)
    show ?thesis
    proof (cases "spec_fuzzy_match (clean_word w) t (rows df)")
      case None
      then show ?thesis
        using h fm by (simp add: search_in_csv_tier_def truthy_None)
    next
      case (Some tr)
      then have "fuzzy_match (clean_word w) t df = Inr (Some tr)" using fm by simp
      then have "tr \<noteq> []" using tier_results_nonblank by blast
      then show ?thesis
        using h fm Some by (simp add: search_in_csv_tier_def truthy_None truthy_nonempty)
    qed
  qed
  have b: "fuzzy_match q t df = Inr (spec_fuzzy_match q t (rows df))"
    if "\<forall>r \<in> set (rows df). cell r t \<noteq> None"
    using that by (rule fuzzy_match_spec)
  have c: "fuzzy_match q t df = Inr None" if "\<forall>r \<in> set (rows df). spec_score q r < 1 / 2"
    using that by (rule fuzzy_match_below_threshold)
  have c': "fuzzy_match q t df = Inr None"
    if "\<forall>r \<in> set (rows df). cell r t \<noteq> None"
       "\<forall>r \<in> set (rows df). spec_score q r < 1 / 2 \<or> \<not> valid_translation t r"
    using b[OF that(1)] spec_fuzzy_match_None[OF that(2)] by simp
  have d: "fuzzy_match q t df = Inr None"
    if "\<forall>r \<in> set (rows df). set (split q) \<inter> set (split (strip (lower (english r)))) = {}"
  proof -
    have "\<forall>r \<in> set (rows df). spec_score q r < 1 / 2"
      using that by (simp add: spec_score_disjoint)
    then show ?thesis by (rule c)
  qed
  have e: "spec_score q r = 1 \<and> (\<exists>tr. fuzzy_match q t df = Inr (Some tr))"
    if p: "\<forall>r' \<in> set (rows df). cell r' t \<noteq> None"
      and h: "r \<in> set (rows df)" "strip (lower (english r)) = q" "2 \<le> length (split q)"
      "valid_translation t r"
  proof -
    have "split q \<noteq> []" using h(3) by auto
    then have one: "spec_score q r = 1" using h(2) by (rule spec_score_equal[rotated])
    then have "spec_score q r \<ge> 1 / 2" by simp
    from spec_fuzzy_match_Some[OF h(1) this h(4)] one b[OF p] show ?thesis by simp
  qed
  show ?thesis using a b c c' d e by blast
qed

theorem fuzzy_tier_best_row_witness:
  "search_in_csv_tier stable_sort_by_length ''Good  morning friend'' ''swahili'' fuzzy_table
     = Inr (Some (Fuzzy, ''asubuhi njema''))
   \<and> fuzzy_match ''morning good'' ''swahili'' fuzzy_table = Inr (Some ''asubuhi njema'')
   \<and> fuzzy_match ''help'' ''swahili'' greeting_table = Inr None
   \<and> fuzzy_match ''good evening'' ''swahili'' fuzzy_table = Inr None
   \<and> spec_score ''morning good'' (sw_row ''Morning good'' ''asubuhi njema'') = 1
   \<and> (\<exists>tr. fuzzy_match ''morning good'' ''swahili'' fuzzy_table = Inr (Some tr))"
proof -
  have p: "\<forall>r \<in> set (rows fuzzy_table). cell r ''swahili'' \<noteq> None" by code_simp
  have h1: "(\<forall>r \<in> set (rows fuzzy_table). cell r ''swahili'' \<noteq> None)
      \<and> rows fuzzy_table \<noteq> [] \<and> ''swahili'' \<in> set (columns fuzzy_table)
      \<and> exact_match (clean_word ''Good  morning friend'') ''swahili'' fuzzy_table = None
      \<and> case_insensitive_match (clean_word ''Good  morning friend'') ''swahili'' fuzzy_table = None
      \<and> partial_match stable_sort_by_length (clean_word ''Good  morning friend'') ''swahili''
           fuzzy_table = None"
    by code_simp
  have v1: "map_option (Pair Fuzzy)
              (spec_fuzzy_match (clean_word ''Good  morning friend'') ''swahili'' (rows fuzzy_table))
            = Some (Fuzzy, ''asubuhi njema'')"
    by code_simp
  have v2: "spec_fuzzy_match ''morning good'' ''swahili'' (rows fuzzy_table) = Some ''asubuhi njema''"
    by code_simp
  have h3: "\<forall>r \<in> set (rows greeting_table).
              set (split ''help'') \<inter> set (split (strip (lower (english r)))) = {}"
    by code_simp
  have h3': "\<forall>r \<in> set (rows fuzzy_table). spec_score ''good evening'' r < 1 / 2"
    by code_simp
  have h3'': "(\<forall>r \<in> set (rows fuzzy_table). cell r ''swahili'' \<noteq> None)
      \<and> (\<forall>r \<in> set (rows fuzzy_table).
            spec_score ''good evening'' r < 1 / 2 \<or> \<not> valid_translation ''swahili'' r)"
    by code_simp
  have h4: "(\<forall>r' \<in> set (rows fuzzy_table). cell r' ''swahili'' \<noteq> None)
      \<and> sw_row ''Morning good'' ''asubuhi njema'' \<in> set (rows fuzzy_table)
      \<and> strip (lower (english (sw_row ''Morning good'' ''asubuhi njema''))) = ''morning good''
      \<and> 2 \<le> length (split ''morning good'')
      \<and> valid_translation ''swahili'' (sw_row ''Morning good'' ''asubuhi njema'')"
    by code_simp
  note T1 = fuzzy_tier_best_row[where df = fuzzy_table and t = "''swahili''"
      and w = "''Good  morning friend''" and q = "''morning good''"
      and r = "sw_row ''Morning good'' ''asubuhi njema''" and sort_values = stable_sort_by_length]
  note T2 = fuzzy_tier_best_row[where df = greeting_table and t = "''swahili''" and q = "''help''"]
  note T3 = fuzzy_tier_best_row[where df = fuzzy_table and t = "''swahili''" and q = "''good evening''"]
  have r1: "search_in_csv_tier stable_sort_by_length ''Good  morning friend'' ''swahili'' fuzzy_table
            = Inr (Some (Fuzzy, ''asubuhi njema''))"
    using T1[THEN conjunct1, THEN mp, OF h1] v1 by simp
  have r1': "fuzzy_match ''morning good'' ''swahili'' fuzzy_table = Inr (Some ''asubuhi njema'')"
    using T1[THEN conjunct2, THEN conjunct1, THEN mp, OF p] v2 by simp
  have r2: "fuzzy_match ''help'' ''swahili'' greeting_table = Inr None"
    using T2[THEN conjunct2, THEN conjunct2, THEN conjunct2, THEN conjunct2, THEN conjunct1,
             THEN mp, OF h3] .
  have r2': "fuzzy_match ''good evening'' ''swahili'' fuzzy_table = Inr None"
    using T3[THEN conjunct2, THEN conjunct2, THEN conjunct1, THEN mp, OF h3'] .
  have r2'': "fuzzy_match ''good evening'' ''swahili'' fuzzy_table = Inr None"
    using T3[THEN conjunct2, THEN conjunct2, THEN conjunct2, THEN conjunct1, THEN mp, OF h3''] .
  have r3: "spec_score ''morning good'' (sw_row ''Morning good'' ''asubuhi njema'') = 1
            \<and> (\<exists>tr. fuzzy_match ''morning good'' ''swahili'' fuzzy_table = Inr (Some tr))"
    using T1[THEN conjunct2, THEN conjunct2, THEN conjunct2, THEN conjunct2, THEN conjunct2,
             THEN mp, OF h4] .
  show ?thesis using r1 r1' r2 r2' r3 by blast
qed


end
